theory Spec2Isabelle
  imports Main
begin

section \<open>The file system, as protectfile.py sees it\<close>

text \<open>
  Paths are the strings \<open>pathlib.Path.resolve()\<close> returns. A file has its bytes and the
  part of \<open>os.stat\<close> that is not a function of the bytes (\<open>f_meta\<close>); what
  \<open>Path.stat()\<close> reports is the size together with that part. The name space is flat:
  directories are not modelled, and reading a file does not change its metadata.
\<close>

type_synonym path = string

record disk_file =
  f_content :: string
  f_meta :: nat

type_synonym filesystem = "path \<rightharpoonup> disk_file"

datatype py_error =
    FileNotFoundError
  | FileExistsError
  | SameFileError
  | AttributeError
  | ValueError
  | TypeError
  | KeyError
  | UnsupportedOperation
  | JSONDecodeError
  | MetadataChanged

datatype 'a outcome = Returned 'a | Raised py_error

definition new_file :: disk_file where
  "new_file = \<lparr>f_content = [], f_meta = 0\<rparr>"

definition is_file :: "filesystem \<Rightarrow> path \<Rightarrow> bool" where
  "is_file f p = (f p \<noteq> None)"

definition stat :: "filesystem \<Rightarrow> path \<Rightarrow> py_error + (nat \<times> nat)" where
  "stat f p = (case f p of None \<Rightarrow> Inl FileNotFoundError
                         | Some x \<Rightarrow> Inr (length (f_content x), f_meta x))"

definition unlink :: "path \<Rightarrow> filesystem \<Rightarrow> py_error + filesystem" where
  "unlink p f = (if is_file f p then Inr (f(p := None)) else Inl FileNotFoundError)"

text \<open>\<open>shutil.copy2\<close>: the bytes and the metadata of the source, under the destination's name.\<close>

definition copy2 :: "path \<Rightarrow> path \<Rightarrow> filesystem \<Rightarrow> py_error + filesystem" where
  "copy2 src dst f = (case f src of None \<Rightarrow> Inl FileNotFoundError
                       | Some x \<Rightarrow> if src = dst then Inl SameFileError else Inr (f(dst \<mapsto> x)))"

text \<open>\<open>Path.rename\<close>: the source replaces the destination and is gone under its old name.\<close>

definition rename :: "path \<Rightarrow> path \<Rightarrow> filesystem \<Rightarrow> py_error + filesystem" where
  "rename src dst f = (case f src of None \<Rightarrow> Inl FileNotFoundError
                        | Some x \<Rightarrow> if src = dst then Inr f else Inr ((f(src := None))(dst \<mapsto> x)))"

text \<open>\<open>Path.name\<close>: the last component of a path.\<close>

definition path_name :: "path \<Rightarrow> string" where
  "path_name p = rev (takeWhile (\<lambda>c. c \<noteq> CHR ''/'') (rev p))"

subsection \<open>File handles\<close>

text \<open>
  \<open>io.open\<close> checks the mode string as CPython does: known letters only, none twice, not
  both text and binary, exactly one of \<open>r\<close>, \<open>w\<close>, \<open>x\<close>, \<open>a\<close>.
\<close>

record handle =
  h_path :: path
  h_pos :: nat
  h_closed :: bool
  h_readable :: bool
  h_writable :: bool
  h_append :: bool

definition valid_mode :: "string \<Rightarrow> bool" where
  "valid_mode m = (set m \<subseteq> set ''axrwb+t'' \<and> distinct m
     \<and> \<not> (CHR ''t'' \<in> set m \<and> CHR ''b'' \<in> set m)
     \<and> length (filter (\<lambda>c. c \<in> set ''rwxa'') m) = 1)"

definition mk_handle :: "path \<Rightarrow> string \<Rightarrow> nat \<Rightarrow> handle" where
  "mk_handle p m pos = \<lparr>h_path = p, h_pos = pos, h_closed = False,
     h_readable = (CHR ''r'' \<in> set m \<or> CHR ''+'' \<in> set m),
     h_writable = (CHR ''r'' \<notin> set m \<or> CHR ''+'' \<in> set m),
     h_append = (CHR ''a'' \<in> set m)\<rparr>"

definition io_open :: "path \<Rightarrow> string \<Rightarrow> filesystem \<Rightarrow> py_error + (handle \<times> filesystem)" where
  "io_open p m f =
     (if \<not> valid_mode m then Inl ValueError
      else if CHR ''r'' \<in> set m then
        (case f p of None \<Rightarrow> Inl FileNotFoundError | Some x \<Rightarrow> Inr (mk_handle p m 0, f))
      else if CHR ''w'' \<in> set m then
        (case f p of None \<Rightarrow> Inr (mk_handle p m 0, f(p \<mapsto> new_file))
                   | Some x \<Rightarrow> Inr (mk_handle p m 0, f(p \<mapsto> x\<lparr>f_content := []\<rparr>)))
      else if CHR ''x'' \<in> set m then
        (case f p of None \<Rightarrow> Inr (mk_handle p m 0, f(p \<mapsto> new_file))
                   | Some x \<Rightarrow> Inl FileExistsError)
      else
        (case f p of None \<Rightarrow> Inr (mk_handle p m 0, f(p \<mapsto> new_file))
                   | Some x \<Rightarrow> Inr (mk_handle p m (length (f_content x)), f)))"

text \<open>
  The calls a caller makes on the handle. A closed handle raises \<open>ValueError\<close>, a handle
  opened without the right raises \<open>io.UnsupportedOperation\<close>. Writing past the end of the
  file fills the gap with zero bytes; in append mode every write goes to the end.
\<close>

definition pad_to :: "nat \<Rightarrow> string \<Rightarrow> string" where
  "pad_to n c = c @ replicate (n - length c) (CHR 0x00)"

definition h_read :: "handle \<Rightarrow> filesystem \<Rightarrow> py_error + (string \<times> handle)" where
  "h_read h f =
     (if h_closed h then Inl ValueError
      else if \<not> h_readable h then Inl UnsupportedOperation
      else case f (h_path h) of
             None \<Rightarrow> Inr ([], h)
           | Some x \<Rightarrow> Inr (drop (h_pos h) (f_content x),
                            h\<lparr>h_pos := max (h_pos h) (length (f_content x))\<rparr>))"

definition h_write :: "string \<Rightarrow> handle \<Rightarrow> filesystem \<Rightarrow> py_error + (handle \<times> filesystem)" where
  "h_write d h f =
     (if h_closed h then Inl ValueError
      else if \<not> h_writable h then Inl UnsupportedOperation
      else let x = (case f (h_path h) of None \<Rightarrow> new_file | Some x \<Rightarrow> x);
               c = f_content x;
               at = (if h_append h then length c else h_pos h);
               c' = take at (pad_to at c) @ d @ drop (at + length d) c
           in Inr (h\<lparr>h_pos := at + length d\<rparr>, f(h_path h \<mapsto> x\<lparr>f_content := c'\<rparr>)))"

definition h_truncate :: "nat \<Rightarrow> handle \<Rightarrow> filesystem \<Rightarrow> py_error + (handle \<times> filesystem)" where
  "h_truncate n h f =
     (if h_closed h then Inl ValueError
      else if \<not> h_writable h then Inl UnsupportedOperation
      else let x = (case f (h_path h) of None \<Rightarrow> new_file | Some x \<Rightarrow> x)
           in Inr (h, f(h_path h \<mapsto> x\<lparr>f_content := take n (pad_to n (f_content x))\<rparr>)))"

definition h_seek :: "nat \<Rightarrow> handle \<Rightarrow> py_error + handle" where
  "h_seek n h = (if h_closed h then Inl ValueError else Inr (h\<lparr>h_pos := n\<rparr>))"

section \<open>ProtectFile\<close>

text \<open>
  What lies outside the source: the name of the process's temporary directory
  (\<open>tempdir.name\<close>), the text \<open>datetime.datetime.now().isoformat()\<close> returns, the BLAKE2b
  digest of a byte string, what the other processes do to the file system during one
  \<open>time.sleep(wait)\<close>, and the bytes that reach the target when \<open>mv_temp\<close> copies the
  temporary file over it (the identity for a copy that succeeds; the source checks this copy by
  digest, so the model lets it fail).
\<close>

record env =
  e_tempdir :: path
  e_now :: string
  e_blake2b :: "string \<Rightarrow> string"
  e_sleep :: "filesystem \<Rightarrow> filesystem"
  e_medium :: "string \<Rightarrow> string"

text \<open>
  The module's state: the file system, the keys of \<open>protected_open\<close> (its values are the
  session objects, which the model passes explicitly), and the lines printed.
\<close>

record world =
  w_fs :: filesystem
  w_open :: "path set"
  w_out :: "string list"

text \<open>
  A ProtectFile object. \<open>release\<close> asks with \<open>hasattr\<close> whether an attribute is there at
  all, since it also runs (from \<open>__del__\<close>) on an object whose \<open>__init__\<close> raised half-way.
  The attributes \<open>__init__\<close> sets after its last \<open>raise\<close> are therefore \<open>Unset\<close> or
  \<open>Attr v\<close>; \<open>_backup\<close> may moreover be Python's \<open>None\<close>. The attributes set before the
  first \<open>raise\<close> are plain fields. \<open>s_flock_closed\<close> is \<open>_flock.closed\<close>.
\<close>

datatype 'a attr = Unset | Attr 'a

record session =
  s_do_backup :: bool
  s_keep_backup :: bool
  s_backup_if_readonly :: bool
  s_check_hash :: bool
  s_file :: path
  s_lock :: path
  s_temp :: path
  s_flock_closed :: bool
  s_exists :: bool
  s_readonly :: bool
  s_backup :: "path option attr"
  s_fstat :: "(nat \<times> nat) attr"
  s_fd :: "handle attr"

text \<open>The arguments of \<open>ProtectFile(...)\<close>; \<open>a_mode\<close> is \<open>'r'\<close> when the caller gives none.\<close>

record open_args =
  a_file :: path
  a_mode :: string
  a_backup_during_lock :: bool
  a_backup :: bool
  a_backup_if_readonly :: bool
  a_check_hash :: bool

subsection \<open>release\<close>

definition close_fd :: "session \<Rightarrow> session" where
  "close_fd s = (case s_fd s of
       Unset \<Rightarrow> s
     | Attr h \<Rightarrow> if \<not> h_closed h then s\<lparr>s_fd := Attr (h\<lparr>h_closed := True\<rparr>)\<rparr> else s)"

definition release_temp :: "session \<Rightarrow> filesystem \<Rightarrow> py_error + filesystem" where
  "release_temp s f = (if is_file f (s_temp s) then unlink (s_temp s) f else Inr f)"

definition release_backup :: "session \<Rightarrow> filesystem \<Rightarrow> py_error + filesystem" where
  "release_backup s f = (case s_backup s of
       Attr (Some b) \<Rightarrow>
         if s_do_backup s \<and> is_file f b \<and> \<not> s_keep_backup s then unlink b f else Inr f
     | _ \<Rightarrow> Inr f)"

definition release_lock :: "session \<Rightarrow> filesystem \<Rightarrow> py_error + filesystem" where
  "release_lock s f = (if is_file f (s_lock s) then unlink (s_lock s) f else Inr f)"

definition release :: "bool \<Rightarrow> session \<Rightarrow> world \<Rightarrow> unit outcome \<times> session \<times> world" where
  "release pop s w =
     (let s1 = close_fd s in
      case release_temp s1 (w_fs w) of
        Inl e \<Rightarrow> (Raised e, s1, w)
      | Inr f1 \<Rightarrow>
     (case release_backup s1 f1 of
        Inl e \<Rightarrow> (Raised e, s1, w\<lparr>w_fs := f1\<rparr>)
      | Inr f2 \<Rightarrow>
     (let s2 = (if \<not> s_flock_closed s1 then s1\<lparr>s_flock_closed := True\<rparr> else s1) in
      case release_lock s2 f2 of
        Inl e \<Rightarrow> (Raised e, s2, w\<lparr>w_fs := f2\<rparr>)
      | Inr f3 \<Rightarrow>
          (Returned (), s2,
           w\<lparr>w_fs := f3, w_open := (if pop then w_open w - {s_file s2} else w_open w)\<rparr>))))"

text \<open>What \<open>release\<close> does to the backup file, as a function on the file system.\<close>

definition backup_gone :: "session \<Rightarrow> filesystem \<Rightarrow> filesystem" where
  "backup_gone s f = (case s_backup s of
       Attr (Some b) \<Rightarrow> if s_do_backup s \<and> \<not> s_keep_backup s then f(b := None) else f
     | _ \<Rightarrow> f)"

subsection \<open>mv_temp and restore\<close>

definition py_print :: "string \<Rightarrow> world \<Rightarrow> world" where
  "py_print l w = w\<lparr>w_out := w_out w @ [l]\<rparr>"

text \<open>
  \<open>mv_temp\<close> and \<open>restore\<close> call each other: \<open>mv_temp()\<close> calls \<open>restore()\<close> when the
  digests differ, and \<open>restore()\<close> calls \<open>mv_temp(alt_file)\<close>, which takes the branch of a
  given destination and calls nothing back. \<open>mv_temp_to\<close> is that branch, so that the three
  definitions follow one another without recursion; \<open>mv_temp env (Some d)\<close> is
  \<open>mv_temp_to d\<close>.
\<close>

definition mv_temp_to :: "path \<Rightarrow> session \<Rightarrow> world \<Rightarrow> unit outcome \<times> session \<times> world" where
  "mv_temp_to dst s w =
     (if \<not> s_readonly s then
        (case copy2 (s_temp s) dst (w_fs w) of
           Inl e \<Rightarrow> (Raised e, s, w)
         | Inr f1 \<Rightarrow>
        (case unlink (s_temp s) f1 of
           Inl e \<Rightarrow> (Raised e, s, w\<lparr>w_fs := f1\<rparr>)
         | Inr f2 \<Rightarrow> (Returned (), s, w\<lparr>w_fs := f2\<rparr>)))
      else (Returned (), s, w))"

definition result_path :: "env \<Rightarrow> session \<Rightarrow> path" where
  "result_path env s = s_file s @ ''__'' @ e_now env @ ''.result''"

definition restore_backup :: "session \<Rightarrow> world \<Rightarrow> unit outcome \<times> world" where
  "restore_backup s w =
     (if s_do_backup s then
        (case s_backup s of
           Attr (Some b) \<Rightarrow>
             (case rename b (s_file s) (w_fs w) of
                Inl e \<Rightarrow> (Raised e, w)
              | Inr f1 \<Rightarrow> (Returned (), py_print ''Restored file to previous state.'' (w\<lparr>w_fs := f1\<rparr>)))
         | _ \<Rightarrow> (Raised AttributeError, w))
      else (Returned (), w))"

definition restore :: "env \<Rightarrow> session \<Rightarrow> world \<Rightarrow> unit outcome \<times> session \<times> world" where
  "restore env s w =
     (case restore_backup s w of
        (Raised e, w1) \<Rightarrow> (Raised e, s, w1)
      | (Returned u, w1) \<Rightarrow>
          if \<not> s_readonly s then
            (case mv_temp_to (result_path env s) s w1 of
               (Raised e, s2, w2) \<Rightarrow> (Raised e, s2, w2)
             | (Returned u, s2, w2) \<Rightarrow>
                 (Returned (), s2,
                  py_print (''Saved calculation results in '' @ path_name (result_path env s) @ ''.'') w2))
          else (Returned (), s, w1))"

text \<open>\<open>get_hash\<close>: the digest of the whole file, read in chunks.\<close>

definition get_hash :: "env \<Rightarrow> filesystem \<Rightarrow> path \<Rightarrow> py_error + string" where
  "get_hash env f p = (case f p of None \<Rightarrow> Inl FileNotFoundError
                                 | Some x \<Rightarrow> Inr (e_blake2b env (f_content x)))"

definition hashes_differ :: "env \<Rightarrow> session \<Rightarrow> filesystem \<Rightarrow> py_error + bool" where
  "hashes_differ env s f =
     (case get_hash env f (s_temp s) of
        Inl e \<Rightarrow> Inl e
      | Inr a \<Rightarrow> (case get_hash env f (s_file s) of Inl e \<Rightarrow> Inl e | Inr b \<Rightarrow> Inr (a \<noteq> b)))"

text \<open>The copy of the temporary file over the target: \<open>copy2\<close>, through \<open>e_medium\<close>.\<close>

definition commit_copy :: "env \<Rightarrow> session \<Rightarrow> filesystem \<Rightarrow> py_error + filesystem" where
  "commit_copy env s f =
     (case f (s_temp s) of
        None \<Rightarrow> Inl FileNotFoundError
      | Some x \<Rightarrow>
          if s_temp s = s_file s then Inl SameFileError
          else Inr (f(s_file s \<mapsto> x\<lparr>f_content := e_medium env (f_content x)\<rparr>)))"

definition hash_warning :: "session \<Rightarrow> string" where
  "hash_warning s = ''Warning: tried to copy temporary file '' @ s_temp s @ '' into '' @ s_file s
     @ '', but hashes do not match!''"

definition mv_temp :: "env \<Rightarrow> path option \<Rightarrow> session \<Rightarrow> world \<Rightarrow> unit outcome \<times> session \<times> world" where
  "mv_temp env destination s w =
     (case destination of
        Some d \<Rightarrow> mv_temp_to d s w
      | None \<Rightarrow>
          if \<not> s_readonly s then
            (case commit_copy env s (w_fs w) of
               Inl e \<Rightarrow> (Raised e, s, w)
             | Inr f1 \<Rightarrow>
            (case (if s_check_hash s then hashes_differ env s f1 else Inr False) of
               Inl e \<Rightarrow> (Raised e, s, w\<lparr>w_fs := f1\<rparr>)
             | Inr differ \<Rightarrow>
            (case (if differ then restore env s (py_print (hash_warning s) (w\<lparr>w_fs := f1\<rparr>))
                   else (Returned (), s, w\<lparr>w_fs := f1\<rparr>)) of
               (Raised e, s2, w2) \<Rightarrow> (Raised e, s2, w2)
             | (Returned u, s2, w2) \<Rightarrow>
            (case unlink (s_temp s2) (w_fs w2) of
               Inl e \<Rightarrow> (Raised e, s2, w2)
             | Inr f3 \<Rightarrow> (Returned (), s2, w2\<lparr>w_fs := f3\<rparr>)))))
          else (Returned (), s, w))"

subsection \<open>__exit__\<close>

definition stat_changed :: "session \<Rightarrow> filesystem \<Rightarrow> py_error + bool" where
  "stat_changed s f =
     (if s_exists s then
        (case stat f (s_file s) of
           Inl e \<Rightarrow> Inl e
         | Inr st \<Rightarrow> (case s_fstat s of Unset \<Rightarrow> Inl AttributeError | Attr st0 \<Rightarrow> Inr (st \<noteq> st0)))
      else Inr False)"

definition changed_error :: "session \<Rightarrow> string" where
  "changed_error s = ''Error: File '' @ s_file s @ '' changed during lock!''"

definition exit :: "env \<Rightarrow> session \<Rightarrow> world \<Rightarrow> unit outcome \<times> session \<times> world" where
  "exit env s w =
     (case s_fd s of
        Unset \<Rightarrow> (Raised AttributeError, s, w)
      | Attr h \<Rightarrow>
     (let s1 = close_fd s in
      case stat_changed s1 (w_fs w) of
        Inl e \<Rightarrow> (Raised e, s1, w)
      | Inr changed \<Rightarrow>
     (case (if changed then restore env s1 (py_print (changed_error s1) w)
            else mv_temp env None s1 w) of
        (Raised e, s2, w2) \<Rightarrow> (Raised e, s2, w2)
      | (Returned u, s2, w2) \<Rightarrow> release True s2 w2)))"

subsection \<open>__init__ and __enter__\<close>

text \<open>
  The loop that makes the lock file. \<open>io.open(lock, 'x')\<close> fails while the lock file is
  there; each failure is followed by one \<open>time.sleep(wait)\<close>, during which the other
  processes act. The first argument bounds the number of sleeps: \<open>None\<close> is a loop that is
  still waiting.
\<close>

fun acquire :: "nat \<Rightarrow> (filesystem \<Rightarrow> filesystem) \<Rightarrow> path \<Rightarrow> filesystem \<Rightarrow> filesystem option" where
  "acquire 0 sl lk f = (if is_file f lk then None else Some (f(lk \<mapsto> new_file)))"
| "acquire (Suc n) sl lk f =
     (if is_file f lk then acquire n sl lk (sl f) else Some (f(lk \<mapsto> new_file)))"

text \<open>\<open>str.replace\<close> of a one-letter pattern.\<close>

definition replace_chr :: "char \<Rightarrow> string \<Rightarrow> string \<Rightarrow> string" where
  "replace_chr c r m = concat (map (\<lambda>x. if x = c then r else [x]) m)"

definition clean_mode :: "bool \<Rightarrow> string \<Rightarrow> string" where
  "clean_mode ex m =
     (if CHR ''r'' \<in> set m then m
      else if CHR ''x'' \<in> set m then m
      else if ex then replace_chr (CHR ''a'') ''r+'' (replace_chr (CHR ''w'') ''r+'' (replace_chr (CHR ''+'') [] m))
      else replace_chr (CHR ''a'') ''x'' (replace_chr (CHR ''w'') ''x'' m))"

definition backup_path :: "path \<Rightarrow> path" where
  "backup_path p = p @ ''.backup''"

definition lock_path :: "path \<Rightarrow> path" where
  "lock_path p = p @ ''.lock''"

definition temp_path :: "env \<Rightarrow> path \<Rightarrow> path" where
  "temp_path env p = e_tempdir env @ ''/'' @ path_name p"

text \<open>The part of \<open>__init__\<close> after the checks of the mode: backup, stat, temporary copy,
  handle, registration.\<close>

definition init_backup :: "session \<Rightarrow> world \<Rightarrow> unit outcome \<times> session \<times> world" where
  "init_backup s w =
     (let s1 = (if s_readonly s \<and> \<not> s_backup_if_readonly s then s\<lparr>s_do_backup := False\<rparr> else s) in
      if s_do_backup s1 \<and> s_exists s1 then
        (let s2 = s1\<lparr>s_backup := Attr (Some (backup_path (s_file s1)))\<rparr> in
         case copy2 (s_file s2) (backup_path (s_file s2)) (w_fs w) of
           Inl e \<Rightarrow> (Raised e, s2, w)
         | Inr f1 \<Rightarrow> (Returned (), s2, w\<lparr>w_fs := f1\<rparr>))
      else (Returned (), s1\<lparr>s_backup := Attr None\<rparr>, w))"

definition init_fstat :: "session \<Rightarrow> world \<Rightarrow> unit outcome \<times> session \<times> world" where
  "init_fstat s w =
     (if s_exists s then
        (case stat (w_fs w) (s_file s) of
           Inl e \<Rightarrow> (Raised e, s, w)
         | Inr st \<Rightarrow> (Returned (), s\<lparr>s_fstat := Attr st\<rparr>, w))
      else (Returned (), s, w))"

definition init_fd :: "string \<Rightarrow> session \<Rightarrow> world \<Rightarrow> unit outcome \<times> session \<times> world" where
  "init_fd m s w =
     (case (if \<not> s_readonly s \<and> s_exists s then copy2 (s_file s) (s_temp s) (w_fs w)
            else Inr (w_fs w)) of
        Inl e \<Rightarrow> (Raised e, s, w)
      | Inr f1 \<Rightarrow>
     (case io_open (if \<not> s_readonly s then s_temp s else s_file s) m f1 of
        Inl e \<Rightarrow> (Raised e, s, w\<lparr>w_fs := f1\<rparr>)
      | Inr (h, f2) \<Rightarrow>
          (Returned (), s\<lparr>s_fd := Attr h\<rparr>, w\<lparr>w_fs := f2, w_open := insert (s_file s) (w_open w)\<rparr>)))"

definition init_checks :: "env \<Rightarrow> open_args \<Rightarrow> world \<Rightarrow> unit outcome \<times> session \<times> world" where
  "init_checks env a w1 =
     (let ex = is_file (w_fs w1) (a_file a);
          m = a_mode a;
          s0 = \<lparr>s_do_backup = (if a_backup a then True else a_backup_during_lock a),
                s_keep_backup = a_backup a,
                s_backup_if_readonly = a_backup_if_readonly a,
                s_check_hash = a_check_hash a,
                s_file = a_file a,
                s_lock = lock_path (a_file a),
                s_temp = temp_path env (a_file a),
                s_flock_closed = False,
                s_exists = ex,
                s_readonly = False,
                s_backup = Unset, s_fstat = Unset, s_fd = Unset\<rparr>
      in if CHR ''r'' \<in> set m \<and> \<not> ex then (Raised FileNotFoundError, s0, w1)
         else if CHR ''r'' \<notin> set m \<and> CHR ''x'' \<in> set m \<and> ex then (Raised FileExistsError, s0, w1)
         else
           (case init_backup (s0\<lparr>s_readonly := (CHR ''r'' \<in> set m \<and> CHR ''+'' \<notin> set m)\<rparr>) w1 of
              (Raised e, s2, w2) \<Rightarrow> (Raised e, s2, w2)
            | (Returned u, s2, w2) \<Rightarrow>
           (case init_fstat s2 w2 of
              (Raised e, s3, w3) \<Rightarrow> (Raised e, s3, w3)
            | (Returned u, s3, w3) \<Rightarrow> init_fd (clean_mode ex m) s3 w3)))"

text \<open>\<open>__init__\<close>: first the lock, then everything else. \<open>None\<close>: still waiting for the lock.\<close>

definition init :: "nat \<Rightarrow> env \<Rightarrow> open_args \<Rightarrow> world \<Rightarrow> (unit outcome \<times> session \<times> world) option" where
  "init fuel env a w =
     (case acquire fuel (e_sleep env) (lock_path (a_file a)) (w_fs w) of
        None \<Rightarrow> None
      | Some f1 \<Rightarrow> Some (init_checks env a (w\<lparr>w_fs := f1\<rparr>)))"

definition enter :: "session \<Rightarrow> handle attr" where
  "enter s = s_fd s"

subsection \<open>What the caller does inside the context\<close>

text \<open>
  The caller holds the handle \<open>__enter__\<close> returned, which is the object's own \<open>_fd\<close>, and
  calls \<open>read\<close>, \<open>write\<close>, \<open>truncate\<close> and \<open>seek\<close> on it, in any order. A call that raises
  ends the sequence.
\<close>

datatype io_call = Read | Write string | Truncate nat | Seek nat

definition do_call :: "io_call \<Rightarrow> session \<Rightarrow> world \<Rightarrow> unit outcome \<times> session \<times> world" where
  "do_call c s w =
     (case s_fd s of
        Unset \<Rightarrow> (Raised AttributeError, s, w)
      | Attr h \<Rightarrow>
          (case c of
             Read \<Rightarrow> (case h_read h (w_fs w) of
                        Inl e \<Rightarrow> (Raised e, s, w)
                      | Inr (d, h') \<Rightarrow> (Returned (), s\<lparr>s_fd := Attr h'\<rparr>, w))
           | Write d \<Rightarrow> (case h_write d h (w_fs w) of
                           Inl e \<Rightarrow> (Raised e, s, w)
                         | Inr (h', f') \<Rightarrow> (Returned (), s\<lparr>s_fd := Attr h'\<rparr>, w\<lparr>w_fs := f'\<rparr>))
           | Truncate n \<Rightarrow> (case h_truncate n h (w_fs w) of
                           Inl e \<Rightarrow> (Raised e, s, w)
                         | Inr (h', f') \<Rightarrow> (Returned (), s\<lparr>s_fd := Attr h'\<rparr>, w\<lparr>w_fs := f'\<rparr>))
           | Seek n \<Rightarrow> (case h_seek n h of
                         Inl e \<Rightarrow> (Raised e, s, w)
                       | Inr h' \<Rightarrow> (Returned (), s\<lparr>s_fd := Attr h'\<rparr>, w))))"

fun do_calls :: "io_call list \<Rightarrow> session \<Rightarrow> world \<Rightarrow> unit outcome \<times> session \<times> world" where
  "do_calls [] s w = (Returned (), s, w)"
| "do_calls (c # cs) s w =
     (case do_call c s w of
        (Raised e, s1, w1) \<Rightarrow> (Raised e, s1, w1)
      | (Returned u, s1, w1) \<Rightarrow> do_calls cs s1 w1)"

section \<open>The metadata file (da_meta.py)\<close>

subsection \<open>JSON documents and Python values\<close>

text \<open>
  A JSON document as its text denotes it: an object is the list of its members, in order, and
  a name may occur twice. The Python values a metadata file holds: \<open>None\<close>, booleans,
  numbers (integers here; floats are not modelled), strings (a \<open>pathlib.Path\<close> is modelled
  by its POSIX string), and dicts, which keep the order of insertion and have one entry per
  key; their keys are strings or integers. Arrays do not occur in a metadata file.
\<close>

datatype json = JNull | JBool bool | JNum int | JStr string | JObj "(string \<times> json) list"

datatype pykey = KStr string | KInt int

datatype pyval = PNone | PBool bool | PInt int | PStr string | PDict "(pykey \<times> pyval) list"

text \<open>
  The \<open>json\<close> module, as far as it is text: \<open>j_loads\<close> reads a document (\<open>None\<close>: a
  \<open>JSONDecodeError\<close>), \<open>j_dumps\<close> writes one. What \<open>json.load\<close> and \<open>json.dump\<close> do between
  documents and Python values is \<open>of_json\<close> and \<open>to_json\<close> below.
\<close>

record json_lib =
  j_loads :: "string \<Rightarrow> json option"
  j_dumps :: "json \<Rightarrow> string"

text \<open>\<open>d[k]\<close>, \<open>d[k] = v\<close> (a present key keeps its place), and a dict built from pairs.\<close>

definition dict_get :: "pykey \<Rightarrow> (pykey \<times> pyval) list \<Rightarrow> pyval option" where
  "dict_get k d = map_of d k"

definition dict_set :: "pykey \<Rightarrow> pyval \<Rightarrow> (pykey \<times> pyval) list \<Rightarrow> (pykey \<times> pyval) list" where
  "dict_set k v d =
     (if k \<in> fst ` set d then map (\<lambda>m. if fst m = k then (k, v) else m) d else d @ [(k, v)])"

definition of_pairs :: "(pykey \<times> pyval) list \<Rightarrow> (pykey \<times> pyval) list" where
  "of_pairs ps = foldl (\<lambda>d m. dict_set (fst m) (snd m) d) [] ps"

text \<open>\<open>str\<close> of an integer, which is how \<open>json.dump\<close> writes an integer key.\<close>

function digits :: "nat \<Rightarrow> string" where
  "digits n = (if n < 10 then [''0123456789'' ! n] else digits (n div 10) @ [''0123456789'' ! (n mod 10)])"
  by pat_completeness auto
termination
  by (relation "measure (\<lambda>n. n)") auto

definition py_str :: "int \<Rightarrow> string" where
  "py_str i = (if i < 0 then CHR ''-'' # digits (nat (- i)) else digits (nat i))"

fun key_str :: "pykey \<Rightarrow> string" where
  "key_str (KStr s) = s"
| "key_str (KInt i) = py_str i"

text \<open>\<open>json.dump\<close>: every key becomes a string. \<open>json.load\<close>: the members are inserted one after
  the other, so that of two members of one name the second wins.\<close>

fun to_json :: "pyval \<Rightarrow> json" where
  "to_json PNone = JNull"
| "to_json (PBool b) = JBool b"
| "to_json (PInt i) = JNum i"
| "to_json (PStr s) = JStr s"
| "to_json (PDict d) = JObj (map (\<lambda>m. (key_str (fst m), to_json (snd m))) d)"

fun of_json :: "json \<Rightarrow> pyval" where
  "of_json JNull = PNone"
| "of_json (JBool b) = PBool b"
| "of_json (JNum i) = PInt i"
| "of_json (JStr s) = PStr s"
| "of_json (JObj ms) = PDict (of_pairs (map (\<lambda>m. (KStr (fst m), of_json (snd m))) ms))"

text \<open>Python's \<open>==\<close>: \<open>True == 1\<close>, and two dicts are equal when they have the same keys with
  equal values, in any order.\<close>

fun py_num :: "pyval \<Rightarrow> int option" where
  "py_num (PBool b) = Some (if b then 1 else 0)"
| "py_num (PInt i) = Some i"
| "py_num v = None"

fun py_eq :: "pyval \<Rightarrow> pyval \<Rightarrow> bool" where
  "py_eq (PDict d1) (PDict d2) =
     (length d1 = length d2 \<and>
      list_all (\<lambda>m. case map_of d2 (fst m) of None \<Rightarrow> False | Some v \<Rightarrow> py_eq (snd m) v) d1)"
| "py_eq PNone PNone = True"
| "py_eq (PStr a) (PStr b) = (a = b)"
| "py_eq a b = (case py_num a of None \<Rightarrow> False
                 | Some x \<Rightarrow> (case py_num b of None \<Rightarrow> False | Some y \<Rightarrow> x = y))"

text \<open>A writer of JSON text, for the concrete inputs.\<close>

fun join :: "string \<Rightarrow> string list \<Rightarrow> string" where
  "join sep [] = []"
| "join sep [x] = x"
| "join sep (x # y # ys) = x @ sep @ join sep (y # ys)"

fun render :: "json \<Rightarrow> string" where
  "render JNull = ''null''"
| "render (JBool b) = (if b then ''true'' else ''false'')"
| "render (JNum i) = py_str i"
| "render (JStr s) = CHR 0x22 # s @ [CHR 0x22]"
| "render (JObj ms) =
     ''{'' @ join '', '' (map (\<lambda>m. CHR 0x22 # fst m @ [CHR 0x22] @ '': '' @ render (snd m)) ms) @ ''}''"

subsection \<open>The with statement\<close>

text \<open>
  \<open>with ProtectFile(...) as pf: body\<close>. \<open>__init__\<close>, then the body on the handle, then
  \<open>__exit__\<close>, also when the body raised; an exception of \<open>__exit__\<close> is the one that leaves
  the statement. The body's own state (the object whose method contains the statement) is
  passed through it. \<open>fd_read\<close> is \<open>pf.read()\<close>, with the text it returns.
\<close>

definition fd_read :: "session \<Rightarrow> world \<Rightarrow> string outcome \<times> session \<times> world" where
  "fd_read s w =
     (case s_fd s of
        Unset \<Rightarrow> (Raised AttributeError, s, w)
      | Attr h \<Rightarrow> (case h_read h (w_fs w) of
                    Inl e \<Rightarrow> (Raised e, s, w)
                  | Inr (d, h') \<Rightarrow> (Returned d, s\<lparr>s_fd := Attr h'\<rparr>, w)))"

definition with_protect ::
  "nat \<Rightarrow> env \<Rightarrow> open_args \<Rightarrow> ('u \<Rightarrow> session \<Rightarrow> world \<Rightarrow> 'a outcome \<times> 'u \<times> session \<times> world)
     \<Rightarrow> 'u \<Rightarrow> world \<Rightarrow> ('a outcome \<times> 'u \<times> world) option" where
  "with_protect fuel env a body u w =
     (case init fuel env a w of
        None \<Rightarrow> None
      | Some (Raised e, s, w1) \<Rightarrow> Some (Raised e, u, w1)
      | Some (Returned x, s, w1) \<Rightarrow>
          Some (case body u s w1 of
                  (r, u2, s2, w2) \<Rightarrow>
                    (case exit env s2 w2 of
                       (Raised e, s3, w3) \<Rightarrow> (Raised e, u2, w3)
                     | (Returned y, s3, w3) \<Rightarrow> (r, u2, w3))))"

definition protect_args :: "path \<Rightarrow> string \<Rightarrow> open_args" where
  "protect_args p m = \<lparr>a_file = p, a_mode = m, a_backup_during_lock = True, a_backup = False,
     a_backup_if_readonly = False, a_check_hash = True\<rparr>"

subsection \<open>_DAMetaData\<close>

text \<open>
  The object: its \<open>_filename\<close> and its attributes \<open>_da_type\<close>, ..., \<open>_line_file\<close>, by the
  name of their property. \<open>getattr\<close> is the read of a public property, \<open>getattr_private\<close> the
  read of the attribute behind it.
\<close>

record da_meta =
  m_filename :: path
  m_attrs :: "string \<rightharpoonup> pyval"

definition cols :: "string list" where
  "cols = [''name'', ''path'', ''da_type'', ''da_dim'', ''emitx'', ''emity'', ''turns'', ''energy'',
     ''nseeds'', ''pairs_shift'', ''pairs_shift_var'', ''s_start'', ''meta_file'', ''line_file'',
     ''six_path'', ''surv_file'', ''da_file'', ''da_evol_file'', ''submissions'']"

definition path_cols :: "string list" where
  "path_cols = [''path'', ''meta_file'', ''line_file'', ''six_path'', ''surv_file'', ''da_file'',
     ''da_evol_file'']"

definition optional_cols :: "string list" where
  "optional_cols = [''six_path'', ''line_file'']"

definition path_parent :: "path \<Rightarrow> path" where
  "path_parent p = rev (drop 1 (dropWhile (\<lambda>c. c \<noteq> CHR ''/'') (rev p)))"

definition meta_file :: "da_meta \<Rightarrow> path" where
  "meta_file obj = m_filename obj @ ''.meta.json''"

definition getattr_private :: "da_meta \<Rightarrow> string \<Rightarrow> py_error + pyval" where
  "getattr_private obj prop = (case m_attrs obj prop of None \<Rightarrow> Inl AttributeError | Some v \<Rightarrow> Inr v)"

definition getattr :: "da_meta \<Rightarrow> string \<Rightarrow> py_error + pyval" where
  "getattr obj key =
     (if key = ''name'' then Inr (PStr (path_name (m_filename obj)))
      else if key = ''path'' then Inr (PStr (path_parent (m_filename obj)))
      else if key = ''meta_file'' then Inr (PStr (meta_file obj))
      else if key = ''surv_file'' then Inr (PStr (m_filename obj @ ''.surv.parquet''))
      else if key = ''da_file'' then Inr (PStr (m_filename obj @ ''.da.parquet''))
      else if key = ''da_evol_file'' then Inr (PStr (m_filename obj @ ''.da_evol.parquet''))
      else getattr_private obj key)"

text \<open>
  The comprehensions of \<open>_store\<close> and \<open>_check_not_changed\<close>: the optional columns that are
  \<open>None\<close>, the dict of the sorted keys, and \<open>_paths_to_strings\<close>.
\<close>

fun none_cols :: "da_meta \<Rightarrow> string list \<Rightarrow> py_error + string list" where
  "none_cols obj [] = Inr []"
| "none_cols obj (x # xs) =
     (case getattr obj x of
        Inl e \<Rightarrow> Inl e
      | Inr v \<Rightarrow> (case none_cols obj xs of
                    Inl e \<Rightarrow> Inl e
                  | Inr r \<Rightarrow> Inr (if v = PNone then x # r else r)))"

fun collect :: "da_meta \<Rightarrow> string list \<Rightarrow> py_error + (pykey \<times> pyval) list" where
  "collect obj [] = Inr []"
| "collect obj (k # ks) =
     (case getattr obj k of
        Inl e \<Rightarrow> Inl e
      | Inr v \<Rightarrow> (case collect obj ks of Inl e \<Rightarrow> Inl e | Inr d \<Rightarrow> Inr ((KStr k, v) # d)))"

fun as_posix :: "pyval \<Rightarrow> py_error + pyval" where
  "as_posix (PStr s) = Inr (PStr s)"
| "as_posix v = Inl AttributeError"

fun posix_of :: "da_meta \<Rightarrow> string list \<Rightarrow> py_error + (pykey \<times> pyval) list" where
  "posix_of obj [] = Inr []"
| "posix_of obj (k # ks) =
     (case getattr obj k of
        Inl e \<Rightarrow> Inl e
      | Inr v \<Rightarrow> (case as_posix v of
                    Inl e \<Rightarrow> Inl e
                  | Inr s \<Rightarrow> (case posix_of obj ks of Inl e \<Rightarrow> Inl e | Inr d \<Rightarrow> Inr ((KStr k, s) # d))))"

definition paths_to_strings ::
  "da_meta \<Rightarrow> (pykey \<times> pyval) list \<Rightarrow> string list \<Rightarrow> py_error + (pykey \<times> pyval) list" where
  "paths_to_strings obj meta ignore =
     (case posix_of obj (filter (\<lambda>k. k \<notin> set ignore) path_cols) of
        Inl e \<Rightarrow> Inl e
      | Inr upd \<Rightarrow> Inr (foldl (\<lambda>d m. dict_set (fst m) (snd m) d) meta upd))"

text \<open>\<open>_store\<close>.\<close>

definition store_body :: "json_lib \<Rightarrow> string \<Rightarrow> (pykey \<times> pyval) list \<Rightarrow> unit \<Rightarrow> session \<Rightarrow> world
     \<Rightarrow> unit outcome \<times> unit \<times> session \<times> world" where
  "store_body lib m meta u s w =
     (case (if m = ''r+'' then do_calls [Truncate 0, Seek 0] s w else (Returned (), s, w)) of
        (Raised e, s2, w2) \<Rightarrow> (Raised e, (), s2, w2)
      | (Returned x, s2, w2) \<Rightarrow>
          (case do_call (Write (j_dumps lib (to_json (PDict meta)))) s2 w2 of
             (r, s3, w3) \<Rightarrow> (r, (), s3, w3)))"

definition store :: "nat \<Rightarrow> env \<Rightarrow> json_lib \<Rightarrow> da_meta \<Rightarrow> world \<Rightarrow> (unit outcome \<times> world) option" where
  "store fuel env lib obj w =
     (case none_cols obj optional_cols of
        Inl e \<Rightarrow> Some (Raised e, w)
      | Inr ignore \<Rightarrow>
     (case collect obj (filter (\<lambda>x. x \<notin> set ignore) cols) of
        Inl e \<Rightarrow> Some (Raised e, w)
      | Inr meta0 \<Rightarrow>
     (case paths_to_strings obj meta0 ignore of
        Inl e \<Rightarrow> Some (Raised e, w)
      | Inr meta \<Rightarrow>
     (let m = (if is_file (w_fs w) (meta_file obj) then ''r+'' else ''x+'') in
      case with_protect fuel env (protect_args (meta_file obj) m) (store_body lib m meta) () w of
        None \<Rightarrow> None
      | Some (r, u, w') \<Rightarrow> Some (r, w')))))"

text \<open>\<open>_check_not_changed\<close>; \<open>MetadataChanged\<close> is the \<open>Exception\<close> it raises.\<close>

definition load_body :: "json_lib \<Rightarrow> pyval option \<Rightarrow> session \<Rightarrow> world
     \<Rightarrow> unit outcome \<times> pyval option \<times> session \<times> world" where
  "load_body lib u s w =
     (case fd_read s w of
        (Raised e, s1, w1) \<Rightarrow> (Raised e, u, s1, w1)
      | (Returned d, s1, w1) \<Rightarrow>
          (case j_loads lib d of
             None \<Rightarrow> (Raised JSONDecodeError, u, s1, w1)
           | Some doc \<Rightarrow> (Returned (), Some (of_json doc), s1, w1)))"

fun pick :: "(pykey \<times> pyval) list \<Rightarrow> string list \<Rightarrow> py_error + (pykey \<times> pyval) list" where
  "pick meta [] = Inr []"
| "pick meta (k # ks) =
     (case dict_get (KStr k) meta of
        None \<Rightarrow> Inl KeyError
      | Some v \<Rightarrow> (case pick meta ks of Inl e \<Rightarrow> Inl e | Inr d \<Rightarrow> Inr ((KStr k, v) # d)))"

definition check_not_changed ::
  "nat \<Rightarrow> env \<Rightarrow> json_lib \<Rightarrow> string list \<Rightarrow> da_meta \<Rightarrow> world \<Rightarrow> (unit outcome \<times> world) option" where
  "check_not_changed fuel env lib ignore0 obj w =
     (case none_cols obj optional_cols of
        Inl e \<Rightarrow> Some (Raised e, w)
      | Inr nones \<Rightarrow>
     (let ignore = ignore0 @ nones;
          sortkeys = filter (\<lambda>x. x \<notin> set ignore) cols in
      case collect obj sortkeys of
        Inl e \<Rightarrow> Some (Raised e, w)
      | Inr this0 \<Rightarrow>
     (case paths_to_strings obj this0 ignore of
        Inl e \<Rightarrow> Some (Raised e, w)
      | Inr thisdict \<Rightarrow>
     (case with_protect fuel env (protect_args (meta_file obj) ''r'') (load_body lib) None w of
        None \<Rightarrow> None
      | Some (Raised e, u, w') \<Rightarrow> Some (Raised e, w')
      | Some (Returned x, None, w') \<Rightarrow> Some (Raised TypeError, w')
      | Some (Returned x, Some (PDict meta), w') \<Rightarrow>
          (case pick meta sortkeys of
             Inl e \<Rightarrow> Some (Raised e, w')
           | Inr picked \<Rightarrow>
               if \<not> py_eq (PDict picked) (PDict thisdict) then Some (Raised MetadataChanged, w')
               else Some (Returned (), w'))
      | Some (Returned x, Some v, w') \<Rightarrow> Some (Raised TypeError, w')))))"

text \<open>\<open>_set_property\<close>.\<close>

definition set_property ::
  "nat \<Rightarrow> env \<Rightarrow> json_lib \<Rightarrow> string \<Rightarrow> pyval \<Rightarrow> da_meta \<Rightarrow> world
     \<Rightarrow> (unit outcome \<times> da_meta \<times> world) option" where
  "set_property fuel env lib prop val obj w =
     (case getattr_private obj prop of
        Inl e \<Rightarrow> Some (Raised e, obj, w)
      | Inr cur \<Rightarrow>
          if \<not> py_eq cur val then
            (let obj1 = obj\<lparr>m_attrs := (m_attrs obj)(prop \<mapsto> val)\<rparr> in
             case check_not_changed fuel env lib [prop] obj1 w of
               None \<Rightarrow> None
             | Some (Raised e, w1) \<Rightarrow> Some (Raised e, obj1, w1)
             | Some (Returned x, w1) \<Rightarrow>
                 (case store fuel env lib obj1 w1 of
                    None \<Rightarrow> None
                  | Some (r, w2) \<Rightarrow> Some (r, obj1, w2)))
          else Some (Returned (), obj, w))"

text \<open>\<open>new_submission_id\<close>.\<close>

definition new_id_body :: "json_lib \<Rightarrow> da_meta \<Rightarrow> session \<Rightarrow> world
     \<Rightarrow> int outcome \<times> da_meta \<times> session \<times> world" where
  "new_id_body lib obj s w =
     (case fd_read s w of
        (Raised e, s1, w1) \<Rightarrow> (Raised e, obj, s1, w1)
      | (Returned d, s1, w1) \<Rightarrow>
     (case j_loads lib d of
        None \<Rightarrow> (Raised JSONDecodeError, obj, s1, w1)
      | Some doc \<Rightarrow>
     (case of_json doc of
        PDict meta \<Rightarrow>
          (case dict_get (KStr ''submissions'') meta of
             None \<Rightarrow> (Raised KeyError, obj, s1, w1)
           | Some (PDict subs) \<Rightarrow>
               (let new_id = int (length subs);
                    meta' = dict_set (KStr ''submissions'') (PDict (dict_set (KInt new_id) PNone subs)) meta
                in case do_calls [Truncate 0, Seek 0, Write (j_dumps lib (to_json (PDict meta')))] s1 w1 of
                     (Raised e, s2, w2) \<Rightarrow> (Raised e, obj, s2, w2)
                   | (Returned x, s2, w2) \<Rightarrow>
                       (Returned new_id, obj\<lparr>m_attrs := (m_attrs obj)(''submissions'' \<mapsto> PDict meta')\<rparr>, s2, w2))
           | Some v \<Rightarrow> (Raised AttributeError, obj, s1, w1))
      | v \<Rightarrow> (Raised TypeError, obj, s1, w1))))"

definition new_submission_id ::
  "nat \<Rightarrow> env \<Rightarrow> json_lib \<Rightarrow> da_meta \<Rightarrow> world \<Rightarrow> (int outcome \<times> da_meta \<times> world) option" where
  "new_submission_id fuel env lib obj w =
     with_protect fuel env (protect_args (meta_file obj) ''r+'') (new_id_body lib) obj w"

section \<open>Concrete inputs\<close>

text \<open>
  A process whose temporary directory is \<open>/tmp/t\<close>, whose digests never collide and whose
  copies succeed, and a file system that holds the one file \<open>/d/f\<close>.
\<close>

definition ex_env :: env where
  "ex_env = \<lparr>e_tempdir = ''/tmp/t'', e_now = ''2022-04-18T12:00:00'',
     e_blake2b = (\<lambda>c. c), e_sleep = (\<lambda>f. f), e_medium = (\<lambda>c. c)\<rparr>"

definition ex_old :: disk_file where
  "ex_old = \<lparr>f_content = ''old data'', f_meta = 7\<rparr>"

definition ex_world :: world where
  "ex_world = \<lparr>w_fs = [''/d/f'' \<mapsto> ex_old], w_open = {}, w_out = []\<rparr>"

definition ex_args :: "string \<Rightarrow> open_args" where
  "ex_args m = \<lparr>a_file = ''/d/f'', a_mode = m, a_backup_during_lock = True, a_backup = False,
     a_backup_if_readonly = False, a_check_hash = True\<rparr>"

definition ex_args_keep :: open_args where
  "ex_args_keep = \<lparr>a_file = ''/d/f'', a_mode = ''r+'', a_backup_during_lock = False, a_backup = True,
     a_backup_if_readonly = False, a_check_hash = True\<rparr>"


text \<open>The staged content a caller may have written, and a copy that stops after three bytes.\<close>

definition ex_new :: disk_file where
  "ex_new = \<lparr>f_content = ''new data!'', f_meta = 9\<rparr>"

definition ex_env_bad :: env where
  "ex_env_bad = ex_env\<lparr>e_medium := take 3\<rparr>"

definition ex_args_new :: open_args where
  "ex_args_new = \<lparr>a_file = ''/d/g'', a_mode = ''x'', a_backup_during_lock = True, a_backup = False,
     a_backup_if_readonly = False, a_check_hash = True\<rparr>"

text \<open>
  A stand-in for the \<open>json\<close> module on four documents: \<open>render\<close> writes, and reading finds
  the document that is written so. A metadata file with one submission under the key \<open>0\<close>, and
  one with one submission under the key \<open>1\<close>.
\<close>

definition doc_dense :: json where
  "doc_dense = JObj [(''turns'', JNum 100), (''submissions'', JObj [(''0'', JNull)])]"

definition doc_dense' :: json where
  "doc_dense' = JObj [(''turns'', JNum 100), (''submissions'', JObj [(''0'', JNull), (''1'', JNull)])]"

definition doc_gap :: json where
  "doc_gap = JObj [(''turns'', JNum 100), (''submissions'', JObj [(''1'', JStr ''done'')])]"

definition doc_gap' :: json where
  "doc_gap' = JObj [(''turns'', JNum 100), (''submissions'', JObj [(''1'', JStr ''done''), (''1'', JNull)])]"

definition ex_lib :: json_lib where
  "ex_lib = \<lparr>j_loads = (\<lambda>s. find (\<lambda>d. render d = s) [doc_dense, doc_dense', doc_gap, doc_gap']),
     j_dumps = render\<rparr>"

definition ex_meta :: da_meta where
  "ex_meta = \<lparr>m_filename = ''/d/study'',
     m_attrs = [''turns'' \<mapsto> PInt 100, ''submissions'' \<mapsto> PDict []]\<rparr>"

definition ex_meta_world :: "json \<Rightarrow> world" where
  "ex_meta_world d = \<lparr>w_fs = [''/d/study.meta.json'' \<mapsto> \<lparr>f_content = render d, f_meta = 3\<rparr>],
     w_open = {}, w_out = []\<rparr>"

section \<open>Properties\<close>

subsection \<open>release\<close>

lemma unlink_absent: "f p = None \<Longrightarrow> f(p := None) = f"
  by (rule ext) simp

lemma release_temp_eq: "release_temp s f = Inr (f(s_temp s := None))"
  by (simp add: release_temp_def unlink_def is_file_def unlink_absent)

lemma release_lock_eq: "release_lock s f = Inr (f(s_lock s := None))"
  by (simp add: release_lock_def unlink_def is_file_def unlink_absent)

lemma release_backup_eq: "release_backup s f = Inr (backup_gone s f)"
  by (simp add: release_backup_def backup_gone_def unlink_def is_file_def unlink_absent
      split: attr.splits option.splits)

lemma release_eq:
  "release pop s w =
     (Returned (), (close_fd s)\<lparr>s_flock_closed := True\<rparr>,
      w\<lparr>w_fs := (backup_gone s ((w_fs w)(s_temp s := None)))(s_lock s := None),
        w_open := (if pop then w_open w - {s_file s} else w_open w)\<rparr>)"
proof -
  have c: "s_temp (close_fd s) = s_temp s" "s_lock (close_fd s) = s_lock s"
    "s_file (close_fd s) = s_file s" "backup_gone (close_fd s) = backup_gone s"
    by (auto simp: close_fd_def backup_gone_def fun_eq_iff split: attr.splits option.splits)
  have d: "(if \<not> s_flock_closed (close_fd s) then (close_fd s)\<lparr>s_flock_closed := True\<rparr> else close_fd s)
      = (close_fd s)\<lparr>s_flock_closed := True\<rparr>"
    by simp
  show ?thesis
    unfolding release_def Let_def d
    by (simp add: release_temp_eq release_backup_eq release_lock_eq c)
qed

text \<open>
  C6. \<open>release\<close> never raises: each \<open>unlink\<close> is reached only when \<open>is_file\<close> holds, and
  \<open>unlink\<close> of an absent path is the only way the model of \<open>release\<close> can raise. A second
  \<open>release\<close>, with \<open>pop\<close> or without (the exit handler calls \<open>release(pop=False)\<close>), returns
  as well, and leaves the file system and the object as the first one left them. This holds
  for every object, also one whose \<open>__init__\<close> raised before \<open>_backup\<close> and \<open>_fd\<close> were set.
\<close>

theorem release_twice:
  "\<exists>s' w'. release pop s w = (Returned (), s', w') \<and>
     (\<exists>w''. release pop' s' w' = (Returned (), s', w'') \<and> w_fs w'' = w_fs w')"
proof -
  let ?s' = "(close_fd s)\<lparr>s_flock_closed := True\<rparr>"
  have c: "close_fd ?s' = ?s'"
    by (simp add: close_fd_def split: attr.splits)
  have b: "backup_gone ?s' = backup_gone s"
    by (auto simp: close_fd_def backup_gone_def fun_eq_iff split: attr.splits option.splits)
  have p: "s_temp ?s' = s_temp s" "s_lock ?s' = s_lock s"
    by (auto simp: close_fd_def split: attr.splits)
  have g: "backup_gone s (((backup_gone s f)(l := None))(t := None))
      = ((backup_gone s f)(l := None))(t := None)" for f l t
    by (auto simp: backup_gone_def fun_eq_iff split: attr.splits option.splits)
  have t: "(backup_gone s (f(t := None))) t = None" for f t
    by (auto simp: backup_gone_def split: attr.splits option.splits)
  show ?thesis
    apply (simp only: release_eq)
    apply (intro exI conjI)
      apply (rule refl)
     apply (simp add: c b p)
    apply (simp add: c b p g fun_eq_iff t)
    done
qed

subsection \<open>The lock loop, paths and mode strings\<close>

lemma acquire_free: "f lk = None \<Longrightarrow> acquire n sl lk f = Some (f(lk \<mapsto> new_file))"
  by (cases n) (simp_all add: is_file_def)


lemma path_name_append:
  "CHR ''/'' \<notin> set sfx \<Longrightarrow> path_name (p @ sfx) = path_name p @ sfx"
proof -
  assume a: "CHR ''/'' \<notin> set sfx"
  have "takeWhile (\<lambda>c. c \<noteq> CHR ''/'') (rev sfx @ rev p)
      = rev sfx @ takeWhile (\<lambda>c. c \<noteq> CHR ''/'') (rev p)"
    by (rule takeWhile_append2) (use a in auto)
  then show ?thesis by (simp add: path_name_def)
qed

lemma replace_chr_Nil: "replace_chr c [] m = filter (\<lambda>x. x \<noteq> c) m"
  by (induction m) (simp_all add: replace_chr_def)

lemma replace_chr_absent: "c \<notin> set m \<Longrightarrow> replace_chr c r m = m"
  by (induction m) (auto simp: replace_chr_def)

lemma set_replace_chr: "c \<in> set m \<Longrightarrow> set (replace_chr c r m) = (set m - {c}) \<union> set r"
  by (induction m) (auto simp: replace_chr_def split: if_splits)

lemma distinct_replace_chr:
  "distinct m \<Longrightarrow> distinct r \<Longrightarrow> set r \<inter> set m \<subseteq> {c} \<Longrightarrow> distinct (replace_chr c r m)"
proof (induction m)
  case Nil
  then show ?case by (simp add: replace_chr_def)
next
  case (Cons x m)
  have eq: "replace_chr c r (x # m) = (if x = c then r else [x]) @ replace_chr c r m"
    by (simp add: replace_chr_def)
  show ?case
  proof (cases "x = c")
    case True
    with Cons.prems have "c \<notin> set m" by simp
    then have "replace_chr c r m = m" by (rule replace_chr_absent)
    with Cons.prems True show ?thesis unfolding eq by auto
  next
    case False
    from Cons have d: "distinct (replace_chr c r m)" by auto
    have "x \<notin> set (replace_chr c r m)"
    proof (cases "c \<in> set m")
      case True
      with Cons.prems False show ?thesis by (auto simp: set_replace_chr)
    next
      case False
      with Cons.prems show ?thesis by (simp add: replace_chr_absent)
    qed
    with d False show ?thesis unfolding eq by simp
  qed
qed


lemma count_replace_chr:
  "length (filter P r) = 1 \<Longrightarrow> P c \<Longrightarrow>
     length (filter P (replace_chr c r m)) = length (filter P m)"
  by (induction m) (auto simp: replace_chr_def)

lemma two_letters:
  assumes "distinct m" "a \<in> set m" "b \<in> set m" "a \<noteq> b" "P a" "P b"
  shows "2 \<le> length (filter P m)"
proof -
  have "{a, b} \<subseteq> set (filter P m)" using assms by auto
  then have "card {a, b} \<le> card (set (filter P m))" by (intro card_mono) auto
  also have "\<dots> \<le> length (filter P m)" by (rule card_length)
  finally show ?thesis using assms by simp
qed

lemma filter_plus_letters:
  "filter (\<lambda>c. c \<in> set ''rwxa'') (filter (\<lambda>c. c \<noteq> CHR ''+'') m) = filter (\<lambda>c. c \<in> set ''rwxa'') m"
  by (induction m) auto

lemma one_letter_w_or_a:
  assumes "length (filter (\<lambda>c. c \<in> set ''rwxa'') m) = 1"
    and "CHR ''r'' \<notin> set m" and "CHR ''x'' \<notin> set m"
  shows "CHR ''w'' \<in> set m \<or> CHR ''a'' \<in> set m"
proof (rule ccontr)
  assume n: "\<not> ?thesis"
  have "filter (\<lambda>c. c \<in> set ''rwxa'') m = []"
    unfolding filter_empty_conv
  proof
    fix c assume "c \<in> set m"
    with n assms(2,3) have "c \<noteq> CHR ''r''" "c \<noteq> CHR ''w''" "c \<noteq> CHR ''x''" "c \<noteq> CHR ''a''"
      by blast+
    then show "c \<notin> set ''rwxa''" by simp
  qed
  with assms(1) show False by simp
qed

lemma one_letter_not_both:
  assumes "length (filter (\<lambda>c. c \<in> set ''rwxa'') m) = 1" and "distinct m"
  shows "\<not> (CHR ''w'' \<in> set m \<and> CHR ''a'' \<in> set m)"
proof
  assume b: "CHR ''w'' \<in> set m \<and> CHR ''a'' \<in> set m"
  have "2 \<le> length (filter (\<lambda>c. c \<in> set ''rwxa'') m)"
  proof (rule two_letters[of m "CHR ''w''" "CHR ''a''"])
    show "distinct m" by (rule assms(2))
    show "CHR ''w'' \<in> set m" "CHR ''a'' \<in> set m" using b by blast+
    show "CHR ''w'' \<noteq> CHR ''a''" by simp
    show "CHR ''w'' \<in> set ''rwxa''" "CHR ''a'' \<in> set ''rwxa''" by simp_all
  qed
  with assms(1) show False by simp
qed

lemma replace_letter_valid:
  assumes d: "distinct m" and r: "CHR ''r'' \<notin> set m" and p: "CHR ''+'' \<notin> set m"
    and c: "c \<in> set m" and pc: "c \<in> set ''rwxa''"
    and one: "length (filter (\<lambda>c. c \<in> set ''rwxa'') m) = 1"
    and sub: "set m \<subseteq> set ''axrwb+t''"
    and tb: "\<not> (CHR ''t'' \<in> set m \<and> CHR ''b'' \<in> set m)"
  shows "valid_mode (replace_chr c ''r+'' m)"
    and "set (replace_chr c ''r+'' m) = (set m - {c}) \<union> set ''r+''"
proof -
  let ?m2 = "replace_chr c ''r+'' m"
  show s2: "set ?m2 = (set m - {c}) \<union> set ''r+''"
    using c by (rule set_replace_chr)
  have mem: "y \<in> set ?m2 \<longleftrightarrow> (y \<in> set m \<and> y \<noteq> c) \<or> y = CHR ''r'' \<or> y = CHR ''+''" for y
    unfolding s2 by simp blast
  have d2: "distinct ?m2"
  proof (rule distinct_replace_chr[OF d])
    show "distinct ''r+''" by simp
    show "set ''r+'' \<inter> set m \<subseteq> {c}" using r p by simp
  qed
  have c2: "length (filter (\<lambda>c. c \<in> set ''rwxa'') ?m2) = 1"
  proof -
    have "length (filter (\<lambda>c. c \<in> set ''rwxa'') ?m2) = length (filter (\<lambda>c. c \<in> set ''rwxa'') m)"
      by (rule count_replace_chr) (simp, rule pc)
    with one show ?thesis by simp
  qed
  have s: "set ?m2 \<subseteq> set ''axrwb+t''"
  proof
    fix y assume "y \<in> set ?m2"
    then consider "y \<in> set m" | "y = CHR ''r''" | "y = CHR ''+''" unfolding mem by blast
    then show "y \<in> set ''axrwb+t''"
    proof cases
      case 1 with sub show ?thesis by (rule subsetD)
    next
      case 2 then show ?thesis by simp
    next
      case 3 then show ?thesis by simp
    qed
  qed
  have t: "CHR ''t'' \<in> set ?m2 \<Longrightarrow> CHR ''t'' \<in> set m" unfolding mem by simp
  have b: "CHR ''b'' \<in> set ?m2 \<Longrightarrow> CHR ''b'' \<in> set m" unfolding mem by simp
  from tb t b have tb2: "\<not> (CHR ''t'' \<in> set ?m2 \<and> CHR ''b'' \<in> set ?m2)" by blast
  show "valid_mode ?m2"
    unfolding valid_mode_def using s d2 tb2 c2 by (intro conjI)
qed

lemma clean_mode_existing:
  assumes v: "valid_mode m" and r: "CHR ''r'' \<notin> set m" and x: "CHR ''x'' \<notin> set m"
  shows "valid_mode (clean_mode True m) \<and> CHR ''r'' \<in> set (clean_mode True m)
     \<and> CHR ''+'' \<in> set (clean_mode True m) \<and> CHR ''a'' \<notin> set (clean_mode True m)"
proof -
  let ?m1 = "filter (\<lambda>c. c \<noteq> CHR ''+'') m"
  from v have sub: "set m \<subseteq> set ''axrwb+t''" and d: "distinct m"
    and tb: "\<not> (CHR ''t'' \<in> set m \<and> CHR ''b'' \<in> set m)"
    and one: "length (filter (\<lambda>c. c \<in> set ''rwxa'') m) = 1"
    by (simp_all add: valid_mode_def)
  have d1: "distinct ?m1" using d by simp
  have r1: "CHR ''r'' \<notin> set ?m1" using r by simp
  have p1: "CHR ''+'' \<notin> set ?m1" by simp
  have one1: "length (filter (\<lambda>c. c \<in> set ''rwxa'') ?m1) = 1"
    using one by (simp only: filter_plus_letters)
  have sub1: "set ?m1 \<subseteq> set ''axrwb+t''"
    using sub by (rule subset_trans[OF filter_is_subset])
  have tb1: "\<not> (CHR ''t'' \<in> set ?m1 \<and> CHR ''b'' \<in> set ?m1)"
    using tb by simp
  have wa: "CHR ''w'' \<in> set m \<or> CHR ''a'' \<in> set m"
    using one r x by (rule one_letter_w_or_a)
  have notboth: "\<not> (CHR ''w'' \<in> set m \<and> CHR ''a'' \<in> set m)"
    using one d by (rule one_letter_not_both)
  have cm: "clean_mode True m = replace_chr (CHR ''a'') ''r+'' (replace_chr (CHR ''w'') ''r+'' ?m1)"
    using r x by (simp add: clean_mode_def replace_chr_Nil)
  show ?thesis
  proof (cases "CHR ''w'' \<in> set m")
    case True
    with notboth have na: "CHR ''a'' \<notin> set m" by blast
    let ?m2 = "replace_chr (CHR ''w'') ''r+'' ?m1"
    have w1: "CHR ''w'' \<in> set ?m1" using True by simp
    have pw: "CHR ''w'' \<in> set ''rwxa''" by simp
    note rl = replace_letter_valid[OF d1 r1 p1 w1 pw one1 sub1 tb1]
    have na2: "CHR ''a'' \<notin> set ?m2" using na unfolding rl(2) by simp
    have eq: "clean_mode True m = ?m2" unfolding cm using na2 by (rule replace_chr_absent)
    have "CHR ''r'' \<in> set ?m2" "CHR ''+'' \<in> set ?m2" unfolding rl(2) by simp_all
    with rl(1) na2 show ?thesis unfolding eq by blast
  next
    case False
    with wa have a: "CHR ''a'' \<in> set m" by blast
    have w1: "CHR ''w'' \<notin> set ?m1" using False by simp
    let ?m2 = "replace_chr (CHR ''a'') ''r+'' ?m1"
    have eq: "clean_mode True m = ?m2" unfolding cm using w1 by (simp add: replace_chr_absent)
    have a1: "CHR ''a'' \<in> set ?m1" using a by simp
    have pa: "CHR ''a'' \<in> set ''rwxa''" by simp
    note rl = replace_letter_valid[OF d1 r1 p1 a1 pa one1 sub1 tb1]
    have "CHR ''r'' \<in> set ?m2" "CHR ''+'' \<in> set ?m2" "CHR ''a'' \<notin> set ?m2"
      unfolding rl(2) by simp_all
    with rl(1) show ?thesis unfolding eq by blast
  qed
qed

lemma backup_path_neq [simp]: "backup_path p \<noteq> p" "p \<noteq> backup_path p"
  by (simp_all add: backup_path_def)

lemma lock_path_neq [simp]: "lock_path p \<noteq> p" "p \<noteq> lock_path p"
  by (simp_all add: lock_path_def)

lemma lock_backup_neq [simp]: "lock_path p \<noteq> backup_path p" "backup_path p \<noteq> lock_path p"
  by (simp_all add: lock_path_def backup_path_def)

lemma init_checks_existing_write:
  assumes x: "w_fs w1 (a_file a) = Some x"
    and v: "valid_mode (clean_mode True (a_mode a))"
    and r: "CHR ''r'' \<in> set (clean_mode True (a_mode a))"
    and ro: "\<not> (CHR ''r'' \<in> set (a_mode a) \<and> CHR ''+'' \<notin> set (a_mode a))"
    and nx: "\<not> (CHR ''r'' \<notin> set (a_mode a) \<and> CHR ''x'' \<in> set (a_mode a))"
    and t: "temp_path env (a_file a) \<noteq> a_file a"
  shows "init_checks env a w1 =
     (Returned (),
      \<lparr>s_do_backup = (a_backup a \<or> a_backup_during_lock a),
       s_keep_backup = a_backup a,
       s_backup_if_readonly = a_backup_if_readonly a,
       s_check_hash = a_check_hash a,
       s_file = a_file a,
       s_lock = lock_path (a_file a),
       s_temp = temp_path env (a_file a),
       s_flock_closed = False,
       s_exists = True,
       s_readonly = False,
       s_backup = Attr (if a_backup a \<or> a_backup_during_lock a then Some (backup_path (a_file a)) else None),
       s_fstat = Attr (length (f_content x), f_meta x),
       s_fd = Attr (mk_handle (temp_path env (a_file a)) (clean_mode True (a_mode a)) 0)\<rparr>,
      w1\<lparr>w_fs := (if a_backup a \<or> a_backup_during_lock a then (w_fs w1)(backup_path (a_file a) \<mapsto> x) else w_fs w1)
                    (temp_path env (a_file a) \<mapsto> x),
         w_open := insert (a_file a) (w_open w1)\<rparr>)"
proof (cases "a_backup a \<or> a_backup_during_lock a")
  case True
  then show ?thesis
    using x v r ro nx t
    by (auto simp add: init_checks_def init_backup_def init_fstat_def init_fd_def copy2_def stat_def
        io_open_def is_file_def Let_def)
next
  case False
  then show ?thesis
    using x v r ro nx t
    by (simp add: init_checks_def init_backup_def init_fstat_def init_fd_def copy2_def stat_def
        io_open_def is_file_def Let_def)
qed

subsection \<open>Opening an existing file for writing\<close>

lemma one_letter_unique:
  assumes "length (filter P m) = 1" "distinct m" "a \<in> set m" "b \<in> set m" "P a" "P b"
  shows "a = b"
proof (rule ccontr)
  assume "a \<noteq> b"
  with assms have "2 \<le> length (filter P m)" by (intro two_letters[of m a b])
  with assms(1) show False by simp
qed

lemma valid_mode_w_a:
  assumes v: "valid_mode m" and wa: "CHR ''w'' \<in> set m \<or> CHR ''a'' \<in> set m"
  shows "CHR ''r'' \<notin> set m" "CHR ''x'' \<notin> set m"
proof -
  from v have d: "distinct m" and one: "length (filter (\<lambda>c. c \<in> set ''rwxa'') m) = 1"
    by (simp_all add: valid_mode_def)
  have u: "y \<in> set m \<Longrightarrow> z \<in> set m \<Longrightarrow> y \<in> set ''rwxa'' \<Longrightarrow> z \<in> set ''rwxa'' \<Longrightarrow> y = z" for y z
    using one d by (rule one_letter_unique)
  show "CHR ''r'' \<notin> set m"
  proof
    assume r: "CHR ''r'' \<in> set m"
    from wa show False
    proof
      assume "CHR ''w'' \<in> set m"
      with r have "CHR ''r'' = CHR ''w''" by (intro u) simp_all
      then show False by simp
    next
      assume "CHR ''a'' \<in> set m"
      with r have "CHR ''r'' = CHR ''a''" by (intro u) simp_all
      then show False by simp
    qed
  qed
  show "CHR ''x'' \<notin> set m"
  proof
    assume r: "CHR ''x'' \<in> set m"
    from wa show False
    proof
      assume "CHR ''w'' \<in> set m"
      with r have "CHR ''x'' = CHR ''w''" by (intro u) simp_all
      then show False by simp
    next
      assume "CHR ''a'' \<in> set m"
      with r have "CHR ''x'' = CHR ''a''" by (intro u) simp_all
      then show False by simp
    qed
  qed
qed

lemma h_write_at_start:
  assumes "h_pos h = 0" "\<not> h_append h" "h_writable h" "\<not> h_closed h" "f (h_path h) = Some x"
  shows "h_write d h f = Inr (h\<lparr>h_pos := length d\<rparr>,
           f(h_path h \<mapsto> x\<lparr>f_content := d @ drop (length d) (f_content x)\<rparr>))"
  using assms by (simp add: h_write_def Let_def)

text \<open>
  C8. On an existing target, a mode with \<open>w\<close> or \<open>a\<close> is rewritten to one with \<open>r+\<close>
  (\<open>clean_mode\<close>), and the handle is opened on the temporary copy: readable, writable, not
  appending, at offset 0, over the whole previous content. A write of \<open>d\<close> then replaces the
  first \<open>length d\<close> bytes and leaves the rest of the old content in place.
\<close>

theorem existing_target_not_truncated:
  assumes lock: "acquire fuel (e_sleep env) (lock_path (a_file a)) (w_fs w) = Some f1"
    and x: "f1 (a_file a) = Some x"
    and v: "valid_mode (a_mode a)"
    and wa: "CHR ''w'' \<in> set (a_mode a) \<or> CHR ''a'' \<in> set (a_mode a)"
    and t: "temp_path env (a_file a) \<noteq> a_file a"
  shows "\<exists>s w' h. init fuel env a w = Some (Returned (), s, w') \<and> enter s = Attr h
     \<and> h_path h = temp_path env (a_file a) \<and> h_pos h = 0
     \<and> h_readable h \<and> h_writable h \<and> \<not> h_append h \<and> \<not> h_closed h
     \<and> w_fs w' (h_path h) = Some x \<and> w_fs w' (a_file a) = Some x
     \<and> (\<forall>d. \<exists>h' f'. h_write d h (w_fs w') = Inr (h', f')
            \<and> map_option f_content (f' (h_path h)) = Some (d @ drop (length d) (f_content x)))
     \<and> CHR ''r'' \<in> set (clean_mode True (a_mode a)) \<and> CHR ''+'' \<in> set (clean_mode True (a_mode a))"
proof -
  note rx = valid_mode_w_a[OF v wa]
  note cm = clean_mode_existing[OF v rx]
  let ?m = "clean_mode True (a_mode a)"
  let ?h = "mk_handle (temp_path env (a_file a)) ?m 0"
  have x1: "w_fs (w\<lparr>w_fs := f1\<rparr>) (a_file a) = Some x" using x by simp
  have ro: "\<not> (CHR ''r'' \<in> set (a_mode a) \<and> CHR ''+'' \<notin> set (a_mode a))" using rx by simp
  have nx: "\<not> (CHR ''r'' \<notin> set (a_mode a) \<and> CHR ''x'' \<in> set (a_mode a))" using rx by simp
  note ic = init_checks_existing_write[OF x1 _ _ ro nx t]
  have i: "init fuel env a w = Some (init_checks env a (w\<lparr>w_fs := f1\<rparr>))"
    using lock by (simp add: init_def)
  have hp: "h_path ?h = temp_path env (a_file a)" "h_pos ?h = 0" "h_readable ?h" "h_writable ?h"
    "\<not> h_append ?h" "\<not> h_closed ?h"
    using cm by (simp_all add: mk_handle_def)
  show ?thesis
    unfolding i
    apply (subst ic)
    using cm apply blast
    using cm apply blast
    apply (intro exI conjI)
              apply (rule refl)
             apply (simp add: enter_def)
            apply (rule hp)+
      apply (simp add: hp)
     apply (use x t in \<open>simp add: hp\<close>)
      apply (intro allI exI conjI)
       apply (rule h_write_at_start)
           apply (rule hp)+
       apply (simp add: hp)
      apply (simp add: hp)
    using cm apply blast
    using cm apply blast
    done
qed

theorem existing_target_not_truncated_witness:
  "\<exists>s w' h. init 0 ex_env (ex_args ''w'') ex_world = Some (Returned (), s, w') \<and> enter s = Attr h
     \<and> h_path h = ''/tmp/t/f'' \<and> h_pos h = 0
     \<and> w_fs w' (h_path h) = Some ex_old
     \<and> (\<exists>h' f'. h_write ''new'' h (w_fs w') = Inr (h', f')
            \<and> map_option f_content (f' (h_path h)) = Some ''new data'')"
proof -
  have tp: "temp_path ex_env ''/d/f'' = ''/tmp/t/f''"
    by (simp add: temp_path_def ex_env_def path_name_def)
  have a: "acquire 0 (e_sleep ex_env) (lock_path (a_file (ex_args ''w''))) (w_fs ex_world)
      = Some ((w_fs ex_world)(''/d/f.lock'' \<mapsto> new_file))"
    by (simp add: ex_args_def ex_world_def lock_path_def is_file_def)
  have x: "((w_fs ex_world)(''/d/f.lock'' \<mapsto> new_file)) (a_file (ex_args ''w'')) = Some ex_old"
    by (simp add: ex_args_def ex_world_def)
  have v: "valid_mode (a_mode (ex_args ''w''))"
    by (simp add: ex_args_def valid_mode_def)
  have wa: "CHR ''w'' \<in> set (a_mode (ex_args ''w'')) \<or> CHR ''a'' \<in> set (a_mode (ex_args ''w''))"
    by (simp add: ex_args_def)
  have t: "temp_path ex_env (a_file (ex_args ''w'')) \<noteq> a_file (ex_args ''w'')"
    by (simp add: ex_args_def tp)
  from existing_target_not_truncated[OF a x v wa t]
  obtain s w' h where
    i: "init 0 ex_env (ex_args ''w'') ex_world = Some (Returned (), s, w')" "enter s = Attr h"
      "h_path h = temp_path ex_env (a_file (ex_args ''w''))" "h_pos h = 0"
      "w_fs w' (h_path h) = Some ex_old"
    and wr: "\<And>d. \<exists>h' f'. h_write d h (w_fs w') = Inr (h', f')
            \<and> map_option f_content (f' (h_path h)) = Some (d @ drop (length d) (f_content ex_old))"
    by blast
  from wr[of "''new''"] obtain h' f' where
    "h_write ''new'' h (w_fs w') = Inr (h', f')"
    "map_option f_content (f' (h_path h)) = Some ''new data''"
    by (auto simp: ex_old_def)
  with i show ?thesis
    by (auto simp: ex_args_def tp)
qed

subsection \<open>The stages of __init__\<close>

lemma io_open_frame:
  "io_open p m f = Inr (h, f') \<Longrightarrow>
     h_path h = p \<and> \<not> h_closed h \<and> (\<forall>q. q \<noteq> p \<longrightarrow> f' q = f q) \<and> f' p \<noteq> None
     \<and> (CHR ''r'' \<in> set m \<longrightarrow> f' = f)"
  by (auto simp: io_open_def mk_handle_def split: if_splits option.splits)

lemma init_backup_facts:
  assumes "init_backup s w = (r, s2, w2)"
  shows "s_file s2 = s_file s" "s_temp s2 = s_temp s" "s_lock s2 = s_lock s"
    "s_readonly s2 = s_readonly s" "s_exists s2 = s_exists s" "s_keep_backup s2 = s_keep_backup s"
    "s_fd s2 = s_fd s" "s_fstat s2 = s_fstat s" "s_check_hash s2 = s_check_hash s"
    "w_open w2 = w_open w" "w_out w2 = w_out w"
    "\<And>p. p \<noteq> backup_path (s_file s) \<Longrightarrow> w_fs w2 p = w_fs w p"
  using assms
  by (auto simp: init_backup_def Let_def copy2_def split: if_splits sum.splits option.splits)

lemma init_backup_Returned:
  assumes "init_backup s w = (Returned u, s2, w2)"
  shows "s_do_backup s2 = (s_do_backup s \<and> \<not> (s_readonly s \<and> \<not> s_backup_if_readonly s))"
    "s_backup s2 = Attr (if s_do_backup s2 \<and> s_exists s then Some (backup_path (s_file s)) else None)"
    "s_do_backup s2 \<and> s_exists s \<Longrightarrow> w_fs w2 (backup_path (s_file s)) = w_fs w (s_file s)
       \<and> w_fs w (s_file s) \<noteq> None"
  using assms
  by (auto simp: init_backup_def Let_def copy2_def split: if_splits sum.splits option.splits)

lemma init_fstat_facts:
  assumes "init_fstat s w = (r, s2, w2)"
  shows "w2 = w" "s_file s2 = s_file s" "s_temp s2 = s_temp s" "s_lock s2 = s_lock s"
    "s_readonly s2 = s_readonly s" "s_exists s2 = s_exists s" "s_keep_backup s2 = s_keep_backup s"
    "s_fd s2 = s_fd s" "s_backup s2 = s_backup s" "s_do_backup s2 = s_do_backup s"
    "s_check_hash s2 = s_check_hash s"
  using assms
  by (auto simp: init_fstat_def split: if_splits sum.splits)

lemma init_fd_Returned:
  assumes "init_fd m s w = (Returned u, s2, w2)"
  shows "\<exists>h. s2 = s\<lparr>s_fd := Attr h\<rparr> \<and> \<not> h_closed h
     \<and> h_path h = (if \<not> s_readonly s then s_temp s else s_file s)"
    "w_open w2 = insert (s_file s) (w_open w)" "w_out w2 = w_out w"
    "\<And>p. \<not> s_readonly s \<Longrightarrow> p \<noteq> s_temp s \<Longrightarrow> w_fs w2 p = w_fs w p"
    "s_readonly s \<Longrightarrow> CHR ''r'' \<in> set m \<Longrightarrow> w_fs w2 = w_fs w"
  using assms
     apply (auto simp: init_fd_def split: if_splits sum.splits dest!: io_open_frame)
  apply (auto simp: copy2_def split: option.splits if_splits)
  done

subsection \<open>Backups\<close>

lemma slash_notin_path_name: "CHR ''/'' \<notin> set (path_name p)"
  by (auto simp: path_name_def dest: set_takeWhileD)

lemma path_name_join: "CHR ''/'' \<notin> set n \<Longrightarrow> path_name (d @ ''/'' @ n) = n"
proof -
  assume a: "CHR ''/'' \<notin> set n"
  have "takeWhile (\<lambda>c. c \<noteq> CHR ''/'') (rev n @ CHR ''/'' # rev d) = takeWhile (\<lambda>c. c \<noteq> CHR ''/'') (rev n)"
    by (rule takeWhile_tail) simp
  also have "\<dots> = rev n"
    using a by (auto simp: takeWhile_eq_all_conv)
  finally show ?thesis by (simp add: path_name_def)
qed

lemma path_name_temp: "path_name (temp_path env p) = path_name p"
  unfolding temp_path_def by (rule path_name_join) (rule slash_notin_path_name)

lemma temp_backup_neq: "temp_path env p \<noteq> backup_path p"
proof
  assume "temp_path env p = backup_path p"
  then have "path_name (temp_path env p) = path_name (backup_path p)" by simp
  then show False
    by (simp add: path_name_temp backup_path_def path_name_append)
qed

lemma temp_lock_neq: "temp_path env p \<noteq> lock_path p"
proof
  assume "temp_path env p = lock_path p"
  then have "path_name (temp_path env p) = path_name (lock_path p)" by simp
  then show False
    by (simp add: path_name_temp lock_path_def path_name_append)
qed

lemma init_checks_Returned:
  assumes "init_checks env a w1 = (Returned u, s, w')"
  shows "\<exists>s2 w2 s3 w3.
     init_backup \<lparr>s_do_backup = (if a_backup a then True else a_backup_during_lock a),
                s_keep_backup = a_backup a,
                s_backup_if_readonly = a_backup_if_readonly a,
                s_check_hash = a_check_hash a,
                s_file = a_file a,
                s_lock = lock_path (a_file a),
                s_temp = temp_path env (a_file a),
                s_flock_closed = False,
                s_exists = is_file (w_fs w1) (a_file a),
                s_readonly = (CHR ''r'' \<in> set (a_mode a) \<and> CHR ''+'' \<notin> set (a_mode a)),
                s_backup = Unset, s_fstat = Unset, s_fd = Unset\<rparr> w1 = (Returned (), s2, w2)
     \<and> init_fstat s2 w2 = (Returned (), s3, w3)
     \<and> init_fd (clean_mode (is_file (w_fs w1) (a_file a)) (a_mode a)) s3 w3 = (Returned (), s, w')"
  using assms
  by (auto simp: init_checks_def Let_def split: if_splits prod.splits outcome.splits)

lemma init_Returned:
  assumes "init fuel env a w = Some (Returned u, s, w')"
  shows "\<exists>f1. acquire fuel (e_sleep env) (lock_path (a_file a)) (w_fs w) = Some f1
     \<and> init_checks env a (w\<lparr>w_fs := f1\<rparr>) = (Returned u, s, w')"
  using assms by (auto simp: init_def split: option.splits)

text \<open>
  C9. With \<open>backup=True\<close> the object has \<open>_do_backup\<close> set whatever \<open>backup_during_lock\<close> was,
  and when the target exists and the mode is not read-only, \<open>__init__\<close> leaves a copy of the
  target, as it was when the lock was obtained, under the backup path.
\<close>

theorem backup_forced_by_retention:
  assumes i: "init fuel env a w = Some (Returned (), s, w')"
    and k: "a_backup a" and e: "s_exists s" and ro: "\<not> s_readonly s"
  shows "s_do_backup s \<and> s_keep_backup s \<and> s_backup s = Attr (Some (backup_path (a_file a)))
     \<and> (\<exists>f1 x. acquire fuel (e_sleep env) (lock_path (a_file a)) (w_fs w) = Some f1
           \<and> f1 (a_file a) = Some x \<and> w_fs w' (backup_path (a_file a)) = Some x)"
proof -
  from init_Returned[OF i] obtain f1 where
    a: "acquire fuel (e_sleep env) (lock_path (a_file a)) (w_fs w) = Some f1"
    and c: "init_checks env a (w\<lparr>w_fs := f1\<rparr>) = (Returned (), s, w')"
    by blast
  let ?w1 = "w\<lparr>w_fs := f1\<rparr>"
  from init_checks_Returned[OF c] obtain s0 s2 w2 s3 w3 where
    s0: "s0 = \<lparr>s_do_backup = (if a_backup a then True else a_backup_during_lock a),
                s_keep_backup = a_backup a,
                s_backup_if_readonly = a_backup_if_readonly a,
                s_check_hash = a_check_hash a,
                s_file = a_file a,
                s_lock = lock_path (a_file a),
                s_temp = temp_path env (a_file a),
                s_flock_closed = False,
                s_exists = is_file (w_fs ?w1) (a_file a),
                s_readonly = (CHR ''r'' \<in> set (a_mode a) \<and> CHR ''+'' \<notin> set (a_mode a)),
                s_backup = Unset, s_fstat = Unset, s_fd = Unset\<rparr>"
    and b: "init_backup s0 ?w1 = (Returned (), s2, w2)"
    and f: "init_fstat s2 w2 = (Returned (), s3, w3)"
    and d: "init_fd (clean_mode (is_file (w_fs ?w1) (a_file a)) (a_mode a)) s3 w3 = (Returned (), s, w')"
    by blast
  note bf = init_backup_facts[OF b] and br = init_backup_Returned[OF b]
  note ff = init_fstat_facts[OF f]
  from init_fd_Returned(1)[OF d] obtain h where s: "s = s3\<lparr>s_fd := Attr h\<rparr>" by blast
  have ro0: "\<not> s_readonly s0" using ro by (simp add: s ff bf)
  have e0: "s_exists s0" using e by (simp add: s ff bf)
  have db0: "s_do_backup s0" using k by (simp add: s0)
  have db2: "s_do_backup s2" using br(1) db0 ro0 by simp
  have fl: "s_file s0 = a_file a" "s_temp s3 = temp_path env (a_file a)" "\<not> s_readonly s3"
    using ro0 by (simp_all add: ff bf) (simp_all add: s0)
  from br(3) db2 e0 fl(1) have x: "w_fs w2 (backup_path (a_file a)) = f1 (a_file a)"
    "f1 (a_file a) \<noteq> None"
    by simp_all
  have "w_fs w' (backup_path (a_file a)) = w_fs w3 (backup_path (a_file a))"
    by (rule init_fd_Returned(4)[OF d]) (use fl temp_backup_neq[of env "a_file a"] in auto)
  then have "w_fs w' (backup_path (a_file a)) = w_fs w2 (backup_path (a_file a))"
    by (simp add: ff(1))
  with x a have 4: "\<exists>f1 x. acquire fuel (e_sleep env) (lock_path (a_file a)) (w_fs w) = Some f1
           \<and> f1 (a_file a) = Some x \<and> w_fs w' (backup_path (a_file a)) = Some x"
    by auto
  have 1: "s_do_backup s" using db2 by (simp add: s ff)
  have 2: "s_keep_backup s" using k by (simp add: s ff bf) (simp add: s0)
  have 3: "s_backup s = Attr (Some (backup_path (a_file a)))"
    using br(2) db2 e0 fl(1) by (simp add: s ff)
  from 1 2 3 4 show ?thesis by blast
qed

lemma init_existing_write:
  assumes l: "w_fs w (lock_path (a_file a)) = None"
    and x: "w_fs w (a_file a) = Some x"
    and v: "valid_mode (clean_mode True (a_mode a))"
    and r: "CHR ''r'' \<in> set (clean_mode True (a_mode a))"
    and ro: "\<not> (CHR ''r'' \<in> set (a_mode a) \<and> CHR ''+'' \<notin> set (a_mode a))"
    and nx: "\<not> (CHR ''r'' \<notin> set (a_mode a) \<and> CHR ''x'' \<in> set (a_mode a))"
    and t: "temp_path env (a_file a) \<noteq> a_file a"
  shows "init fuel env a w = Some
     (Returned (),
      \<lparr>s_do_backup = (a_backup a \<or> a_backup_during_lock a),
       s_keep_backup = a_backup a,
       s_backup_if_readonly = a_backup_if_readonly a,
       s_check_hash = a_check_hash a,
       s_file = a_file a,
       s_lock = lock_path (a_file a),
       s_temp = temp_path env (a_file a),
       s_flock_closed = False,
       s_exists = True,
       s_readonly = False,
       s_backup = Attr (if a_backup a \<or> a_backup_during_lock a then Some (backup_path (a_file a)) else None),
       s_fstat = Attr (length (f_content x), f_meta x),
       s_fd = Attr (mk_handle (temp_path env (a_file a)) (clean_mode True (a_mode a)) 0)\<rparr>,
      w\<lparr>w_fs := (if a_backup a \<or> a_backup_during_lock a
                  then (w_fs w)(lock_path (a_file a) \<mapsto> new_file, backup_path (a_file a) \<mapsto> x)
                  else (w_fs w)(lock_path (a_file a) \<mapsto> new_file))
                    (temp_path env (a_file a) \<mapsto> x),
         w_open := insert (a_file a) (w_open w)\<rparr>)"
proof -
  let ?f1 = "(w_fs w)(lock_path (a_file a) \<mapsto> new_file)"
  have a: "acquire fuel (e_sleep env) (lock_path (a_file a)) (w_fs w) = Some ?f1"
    using l by (rule acquire_free)
  have x1: "w_fs (w\<lparr>w_fs := ?f1\<rparr>) (a_file a) = Some x" using x by simp
  show ?thesis
    unfolding init_def a option.case init_checks_existing_write[OF x1 v r ro nx t]
    by simp
qed

lemma ex_temp: "temp_path ex_env ''/d/f'' = ''/tmp/t/f''"
  by (simp add: temp_path_def ex_env_def path_name_def)

theorem backup_forced_by_retention_witness:
  "\<exists>s w'. init 0 ex_env ex_args_keep ex_world = Some (Returned (), s, w')
     \<and> a_backup ex_args_keep \<and> \<not> a_backup_during_lock ex_args_keep
     \<and> s_exists s \<and> \<not> s_readonly s
     \<and> s_do_backup s \<and> s_keep_backup s \<and> s_backup s = Attr (Some ''/d/f.backup'')
     \<and> w_fs w' ''/d/f.backup'' = Some ex_old"
proof -
  have cm: "clean_mode True (a_mode ex_args_keep) = ''r+''"
    by (simp add: ex_args_keep_def clean_mode_def)
  have "\<exists>s w'. init 0 ex_env ex_args_keep ex_world = Some (Returned (), s, w')
     \<and> s_exists s \<and> \<not> s_readonly s"
    by (subst init_existing_write[where x = ex_old])
      (simp_all add: cm valid_mode_def, simp_all add: ex_args_keep_def ex_world_def lock_path_def ex_temp)
  then obtain s w' where i: "init 0 ex_env ex_args_keep ex_world = Some (Returned (), s, w')"
    and e: "s_exists s" and ro: "\<not> s_readonly s"
    by blast
  have k: "a_backup ex_args_keep" by (simp add: ex_args_keep_def)
  have a: "acquire 0 (e_sleep ex_env) (lock_path (a_file ex_args_keep)) (w_fs ex_world)
      = Some ((w_fs ex_world)(''/d/f.lock'' \<mapsto> new_file))"
    by (simp add: ex_args_keep_def ex_world_def lock_path_def is_file_def)
  from backup_forced_by_retention[OF i k e ro] a
  have "s_do_backup s \<and> s_keep_backup s \<and> s_backup s = Attr (Some ''/d/f.backup'')
     \<and> w_fs w' ''/d/f.backup'' = Some ex_old"
    by (auto simp: ex_args_keep_def backup_path_def ex_world_def)
  with i e ro k show ?thesis
    by (auto simp: ex_args_keep_def)
qed

subsection \<open>A mode that does not fit the target\<close>








subsection \<open>Inside the context\<close>





lemma ex_init_rw:
  "init 0 ex_env (ex_args ''r+'') ex_world = Some
     (Returned (),
      \<lparr>s_do_backup = True, s_keep_backup = False, s_backup_if_readonly = False, s_check_hash = True,
       s_file = ''/d/f'', s_lock = ''/d/f.lock'', s_temp = ''/tmp/t/f'', s_flock_closed = False,
       s_exists = True, s_readonly = False, s_backup = Attr (Some ''/d/f.backup''),
       s_fstat = Attr (8, 7), s_fd = Attr (mk_handle ''/tmp/t/f'' ''r+'' 0)\<rparr>,
      \<lparr>w_fs = [''/d/f'' \<mapsto> ex_old, ''/d/f.lock'' \<mapsto> new_file, ''/d/f.backup'' \<mapsto> ex_old,
               ''/tmp/t/f'' \<mapsto> ex_old],
       w_open = {''/d/f''}, w_out = []\<rparr>)"
proof -
  have cm: "clean_mode True (a_mode (ex_args ''r+'')) = ''r+''"
    by (simp add: ex_args_def clean_mode_def)
  show ?thesis
    by (subst init_existing_write[where x = ex_old])
      (simp_all add: cm valid_mode_def,
       simp_all add: ex_args_def ex_world_def lock_path_def backup_path_def ex_temp ex_old_def)
qed


subsection \<open>mv_temp and restore, step by step\<close>

lemma result_path_neq [simp]:
  "result_path env s \<noteq> s_file s" "s_file s \<noteq> result_path env s"
  "result_path env s \<noteq> backup_path (s_file s)" "backup_path (s_file s) \<noteq> result_path env s"
  "result_path env s \<noteq> lock_path (s_file s)" "lock_path (s_file s) \<noteq> result_path env s"
  by (simp_all add: result_path_def backup_path_def lock_path_def)

lemma temp_result_neq:
  assumes "s_temp s = temp_path env' (s_file s)" and "CHR ''/'' \<notin> set (e_now env)"
  shows "s_temp s \<noteq> result_path env s"
proof
  assume "s_temp s = result_path env s"
  then have "path_name (temp_path env' (s_file s)) = path_name (result_path env s)"
    using assms(1) by simp
  moreover have "path_name (result_path env s) = path_name (s_file s) @ ''__'' @ e_now env @ ''.result''"
    unfolding result_path_def using assms(2) by (intro path_name_append) simp
  ultimately show False by (simp add: path_name_temp)
qed

lemma restore_write:
  assumes ro: "\<not> s_readonly s"
    and bk: "s_backup s = Attr (if s_do_backup s then Some (backup_path (s_file s)) else None)"
    and tf: "s_temp s \<noteq> s_file s" and tb: "s_temp s \<noteq> backup_path (s_file s)"
    and tr: "s_temp s \<noteq> result_path env s"
    and t: "w_fs w (s_temp s) = Some t"
    and b: "s_do_backup s \<Longrightarrow> w_fs w (backup_path (s_file s)) = Some bf"
  shows "restore env s w =
     (Returned (), s,
      w\<lparr>w_fs := ((if s_do_backup s then (w_fs w)(backup_path (s_file s) := None, s_file s \<mapsto> bf)
                  else w_fs w)(result_path env s \<mapsto> t))(s_temp s := None),
        w_out := w_out w @ (if s_do_backup s then [''Restored file to previous state.''] else [])
                 @ [''Saved calculation results in '' @ path_name (result_path env s) @ ''.'']\<rparr>)"
proof (cases "s_do_backup s")
  case True
  with ro bk tf tb tr t b[OF True] show ?thesis
    by (simp add: restore_def restore_backup_def rename_def mv_temp_to_def copy2_def unlink_def
        is_file_def py_print_def)
next
  case False
  with ro bk tf tb tr t show ?thesis
    by (simp add: restore_def restore_backup_def rename_def mv_temp_to_def copy2_def unlink_def
        is_file_def py_print_def)
qed

lemma restore_readonly:
  assumes ro: "s_readonly s"
    and bk: "s_backup s = Attr (if s_do_backup s then Some (backup_path (s_file s)) else None)"
    and b: "s_do_backup s \<Longrightarrow> w_fs w (backup_path (s_file s)) = Some bf"
  shows "restore env s w =
     (Returned (), s,
      w\<lparr>w_fs := (if s_do_backup s then (w_fs w)(backup_path (s_file s) := None, s_file s \<mapsto> bf)
                  else w_fs w),
        w_out := w_out w @ (if s_do_backup s then [''Restored file to previous state.''] else [])\<rparr>)"
proof (cases "s_do_backup s")
  case True
  with ro bk b[OF True] show ?thesis
    by (simp add: restore_def restore_backup_def rename_def py_print_def)
next
  case False
  with ro bk show ?thesis
    by (simp add: restore_def restore_backup_def)
qed

lemma mv_temp_commit:
  assumes ro: "\<not> s_readonly s" and tf: "s_temp s \<noteq> s_file s"
    and t: "w_fs w (s_temp s) = Some t"
    and h: "\<not> (s_check_hash s \<and> e_blake2b env (f_content t) \<noteq> e_blake2b env (e_medium env (f_content t)))"
  shows "mv_temp env None s w =
     (Returned (), s,
      w\<lparr>w_fs := ((w_fs w)(s_file s \<mapsto> t\<lparr>f_content := e_medium env (f_content t)\<rparr>))(s_temp s := None)\<rparr>)"
  using assms
  by (cases "s_check_hash s")
    (simp_all add: mv_temp_def commit_copy_def hashes_differ_def get_hash_def unlink_def is_file_def)

lemma mv_temp_readonly: "s_readonly s \<Longrightarrow> mv_temp env None s w = (Returned (), s, w)"
  by (simp add: mv_temp_def)

lemma close_fd_fields [simp]:
  "s_file (close_fd s) = s_file s" "s_lock (close_fd s) = s_lock s" "s_temp (close_fd s) = s_temp s"
  "s_exists (close_fd s) = s_exists s" "s_readonly (close_fd s) = s_readonly s"
  "s_do_backup (close_fd s) = s_do_backup s" "s_keep_backup (close_fd s) = s_keep_backup s"
  "s_check_hash (close_fd s) = s_check_hash s" "s_backup (close_fd s) = s_backup s"
  "s_fstat (close_fd s) = s_fstat s" "s_flock_closed (close_fd s) = s_flock_closed s"
  by (simp_all add: close_fd_def split: attr.splits)

lemma exit_unfold:
  assumes "s_fd s = Attr h" "s_exists s" "s_fstat s = Attr st0" "w_fs w (s_file s) = Some f"
  shows "exit env s w =
     (case (if (length (f_content f), f_meta f) \<noteq> st0
            then restore env (close_fd s) (py_print (changed_error s) w)
            else mv_temp env None (close_fd s) w) of
        (Raised e, s2, w2) \<Rightarrow> (Raised e, s2, w2)
      | (Returned u, s2, w2) \<Rightarrow> release True s2 w2)"
  using assms by (simp add: exit_def stat_changed_def stat_def changed_error_def Let_def)

lemma exit_new_target:
  assumes "s_fd s = Attr h" "\<not> s_exists s"
  shows "exit env s w =
     (case mv_temp env None (close_fd s) w of
        (Raised e, s2, w2) \<Rightarrow> (Raised e, s2, w2)
      | (Returned u, s2, w2) \<Rightarrow> release True s2 w2)"
  using assms by (simp add: exit_def stat_changed_def Let_def)

lemma init_shape:
  assumes i: "init fuel env a w0 = Some (Returned (), s, w1)"
  shows "s_file s = a_file a" "s_lock s = lock_path (a_file a)" "s_temp s = temp_path env (a_file a)"
    "\<exists>h. s_fd s = Attr h \<and> \<not> h_closed h"
    "s_backup s = Attr (if s_do_backup s \<and> s_exists s then Some (backup_path (a_file a)) else None)"
    "s_exists s \<Longrightarrow> \<exists>st. s_fstat s = Attr st"
    "s_check_hash s = a_check_hash a" "s_keep_backup s = a_backup a"
    "s_readonly s = (CHR ''r'' \<in> set (a_mode a) \<and> CHR ''+'' \<notin> set (a_mode a))"
proof -
  from init_Returned[OF i] obtain f1 where
    ic: "init_checks env a (w0\<lparr>w_fs := f1\<rparr>) = (Returned (), s, w1)"
    by blast
  let ?w1 = "w0\<lparr>w_fs := f1\<rparr>"
  from init_checks_Returned[OF ic] obtain s0 s2 w2 s3 w3 where
    s0: "s0 = \<lparr>s_do_backup = (if a_backup a then True else a_backup_during_lock a),
                s_keep_backup = a_backup a,
                s_backup_if_readonly = a_backup_if_readonly a,
                s_check_hash = a_check_hash a,
                s_file = a_file a,
                s_lock = lock_path (a_file a),
                s_temp = temp_path env (a_file a),
                s_flock_closed = False,
                s_exists = is_file (w_fs ?w1) (a_file a),
                s_readonly = (CHR ''r'' \<in> set (a_mode a) \<and> CHR ''+'' \<notin> set (a_mode a)),
                s_backup = Unset, s_fstat = Unset, s_fd = Unset\<rparr>"
    and b: "init_backup s0 ?w1 = (Returned (), s2, w2)"
    and f: "init_fstat s2 w2 = (Returned (), s3, w3)"
    and d: "init_fd (clean_mode (is_file (w_fs ?w1) (a_file a)) (a_mode a)) s3 w3 = (Returned (), s, w1)"
    by blast
  note bf = init_backup_facts[OF b] and br = init_backup_Returned[OF b]
  note ff = init_fstat_facts[OF f]
  from init_fd_Returned(1)[OF d] obtain h where s: "s = s3\<lparr>s_fd := Attr h\<rparr>" and hc: "\<not> h_closed h"
    by blast
  show "s_file s = a_file a" "s_lock s = lock_path (a_file a)" "s_temp s = temp_path env (a_file a)"
    "s_check_hash s = a_check_hash a" "s_keep_backup s = a_backup a"
    "s_readonly s = (CHR ''r'' \<in> set (a_mode a) \<and> CHR ''+'' \<notin> set (a_mode a))"
    by (simp_all add: s ff bf) (simp_all add: s0)
  show "\<exists>h. s_fd s = Attr h \<and> \<not> h_closed h" using hc by (simp add: s)
  have fl: "s_file s0 = a_file a" by (simp add: s0)
  show "s_backup s = Attr (if s_do_backup s \<and> s_exists s then Some (backup_path (a_file a)) else None)"
    using br(2) by (simp add: s ff bf fl)
  show "\<exists>st. s_fstat s = Attr st" if "s_exists s"
  proof -
    from that have "s_exists s2" by (simp add: s ff)
    with f show ?thesis
      by (auto simp: s init_fstat_def split: sum.splits)
  qed
qed

subsection \<open>__exit__: commit or rollback\<close>

lemma backup_gone_other:
  assumes "s_backup s = Attr (if c then Some b else None)" and "p \<noteq> b"
  shows "backup_gone s F p = F p"
  using assms by (simp add: backup_gone_def)

lemma release_at:
  assumes "s_backup s = Attr (if c then Some b else None)" and "p \<noteq> b" and "p \<noteq> s_temp s"
    and "p \<noteq> s_lock s" and "release pop s w = (r, s', w')"
  shows "w_fs w' p = w_fs w p"
  using assms(5) unfolding release_eq
  by (auto simp: backup_gone_other[OF assms(1,2)] assms(3,4))

lemma release_gone:
  assumes "s_backup s = Attr (if c then Some b else None)" and "release pop s w = (r, s', w')"
  shows "w_fs w' (s_lock s) = None" "w_fs w' (s_temp s) = None" "r = Returned ()" "w_out w' = w_out w"
  using assms(2) unfolding release_eq
  by (cases c; auto simp: backup_gone_def assms(1))+

text \<open>
  C1, as the code has it. The session was opened on an existing target; at \<open>__exit__\<close> the
  target is still there, and so are the temporary file of a session that is not read-only and
  the backup of a session that keeps one; when the digests are checked, the copy over the
  target arrives with the digest of the temporary file. Then \<open>__exit__\<close> returns, and
  \<^item> if the target's \<open>stat\<close> is the one taken at \<open>__init__\<close>: a session that is not read-only
    has copied the temporary file over the target, a read-only one has left the target alone;
    no \<open>.result\<close> file is written and nothing is printed;
  \<^item> otherwise nothing is copied over the target: the backup, if the session keeps one, is
    renamed onto it (else the target stays as found), a session that is not read-only saves
    the temporary file as the \<open>.result\<close> file, and the messages are printed;
  \<^item> in both cases the target exists, and the lock file and the temporary file are gone.
\<close>

theorem close_commits_or_rolls_back:
  assumes i: "init fuel env a w0 = Some (Returned (), s, w1)"
    and ex: "s_exists s"
    and tf: "temp_path env (a_file a) \<noteq> a_file a"
    and now: "CHR ''/'' \<notin> set (e_now env)"
    and f: "w_fs w (a_file a) = Some f"
    and t: "\<not> s_readonly s \<Longrightarrow> w_fs w (s_temp s) = Some t"
    and b: "s_do_backup s \<Longrightarrow> w_fs w (backup_path (a_file a)) = Some bf"
    and hs: "\<not> s_readonly s \<Longrightarrow> s_check_hash s \<Longrightarrow> s_fstat s = Attr (length (f_content f), f_meta f)
       \<Longrightarrow> e_blake2b env (e_medium env (f_content t)) = e_blake2b env (f_content t)"
  shows "\<exists>s' w'. exit env s w = (Returned (), s', w')
     \<and> (if s_fstat s = Attr (length (f_content f), f_meta f)
        then w_fs w' (a_file a) = Some (if s_readonly s then f else t\<lparr>f_content := e_medium env (f_content t)\<rparr>)
           \<and> w_fs w' (result_path env s) = w_fs w (result_path env s)
           \<and> w_out w' = w_out w
        else w_fs w' (a_file a) = Some (if s_do_backup s then bf else f)
           \<and> w_fs w' (result_path env s) = (if s_readonly s then w_fs w (result_path env s) else Some t)
           \<and> w_out w' = w_out w @ [changed_error s]
                @ (if s_do_backup s then [''Restored file to previous state.''] else [])
                @ (if s_readonly s then []
                   else [''Saved calculation results in '' @ path_name (result_path env s) @ ''.'']))
     \<and> w_fs w' (s_lock s) = None \<and> w_fs w' (s_temp s) = None"
proof -
  note sh = init_shape[OF i]
  from sh(4) obtain h where fd: "s_fd s = Attr h" by blast
  from sh(6)[OF ex] obtain st0 where st: "s_fstat s = Attr st0" by blast
  let ?c = "close_fd s"
  have fl: "s_file s = a_file a" by (rule sh(1))
  have bk: "s_backup s = Attr (if s_do_backup s then Some (backup_path (s_file s)) else None)"
    using sh(5) ex by (simp add: fl)
  have bkc: "s_backup ?c = Attr (if s_do_backup ?c then Some (backup_path (s_file ?c)) else None)"
    using bk by simp
  have f': "w_fs w (s_file s) = Some f" using f by (simp add: fl)
  have tfs: "s_temp s \<noteq> s_file s" using tf by (simp add: sh)
  have tb: "s_temp s \<noteq> backup_path (s_file s)" by (simp add: sh temp_backup_neq)
  have tl: "s_temp s \<noteq> s_lock s" by (simp add: sh temp_lock_neq)
  have trs: "s_temp s \<noteq> result_path env s"
    using sh(3) now unfolding fl[symmetric] by (rule temp_result_neq)
  have lk: "s_lock s = lock_path (s_file s)" by (simp add: sh)
  note eu = exit_unfold[OF fd ex st f', of env]
  obtain r s' w' where e: "exit env s w = (r, s', w')" by (cases "exit env s w") auto
  show ?thesis
  proof (cases "(length (f_content f), f_meta f) = st0")
    case True
    show ?thesis
    proof (cases "s_readonly s")
      case ro: True
      from e have rl: "release True ?c w = (r, s', w')"
        unfolding eu by (simp add: True mv_temp_readonly ro)
      note g = release_gone[OF bkc rl]
      have 1: "w_fs w' (a_file a) = w_fs w (a_file a)"
        by (rule release_at[OF bkc _ _ _ rl]) (use tfs lk in \<open>simp_all add: fl[symmetric]\<close>)
      have 2: "w_fs w' (result_path env s) = w_fs w (result_path env s)"
        by (rule release_at[OF bkc _ _ _ rl]) (use trs lk in \<open>simp_all add: result_path_def backup_path_def lock_path_def\<close>)
      from e g 1 2 f show ?thesis by (simp add: True st ro)
    next
      case ro: False
      have hh: "\<not> (s_check_hash ?c \<and> e_blake2b env (f_content t) \<noteq> e_blake2b env (e_medium env (f_content t)))"
        using hs[OF ro] by (auto simp: st True)
      have mt: "mv_temp env None ?c w = (Returned (), ?c,
          w\<lparr>w_fs := ((w_fs w)(s_file ?c \<mapsto> t\<lparr>f_content := e_medium env (f_content t)\<rparr>))(s_temp ?c := None)\<rparr>)"
        by (rule mv_temp_commit) (use ro tfs t hh in simp_all)
      from e have rl: "release True ?c
          (w\<lparr>w_fs := ((w_fs w)(s_file s \<mapsto> t\<lparr>f_content := e_medium env (f_content t)\<rparr>))(s_temp s := None)\<rparr>)
          = (r, s', w')"
        unfolding eu by (simp add: True mt)
      note g = release_gone[OF bkc rl]
      have 1: "w_fs w' (a_file a) = Some (t\<lparr>f_content := e_medium env (f_content t)\<rparr>)"
        by (subst release_at[OF bkc _ _ _ rl]) (use tfs lk in \<open>simp_all add: fl[symmetric]\<close>)
      have 2: "w_fs w' (result_path env s) = w_fs w (result_path env s)"
        by (subst release_at[OF bkc _ _ _ rl]) (use trs lk in \<open>simp_all add: result_path_def backup_path_def lock_path_def\<close>)
      from e g 1 2 show ?thesis by (simp add: True st ro)
    qed
  next
    case False
    let ?w0 = "py_print (changed_error s) w"
    have o0: "w_out ?w0 = w_out w @ [changed_error s]" "w_fs ?w0 = w_fs w"
      by (simp_all add: py_print_def)
    show ?thesis
    proof (cases "s_readonly s")
      case ro: True
      have rs: "restore env ?c ?w0 = (Returned (), ?c,
          ?w0\<lparr>w_fs := (if s_do_backup ?c then (w_fs ?w0)(backup_path (s_file ?c) := None, s_file ?c \<mapsto> bf)
                  else w_fs ?w0),
             w_out := w_out ?w0 @ (if s_do_backup ?c then [''Restored file to previous state.''] else [])\<rparr>)"
        by (rule restore_readonly) (use ro bkc b in \<open>simp_all add: o0 fl\<close>)
      from e have rl: "release True ?c
          (?w0\<lparr>w_fs := (if s_do_backup s then (w_fs w)(backup_path (s_file s) := None, s_file s \<mapsto> bf)
                  else w_fs w),
             w_out := w_out w @ [changed_error s] @ (if s_do_backup s then [''Restored file to previous state.''] else [])\<rparr>)
          = (r, s', w')"
        unfolding eu by (cases "s_do_backup s"; simp add: False rs o0)
      note g = release_gone[OF bkc rl]
      have 1: "w_fs w' (a_file a) = Some (if s_do_backup s then bf else f)"
        by (subst release_at[OF bkc _ _ _ rl]) (use tfs lk f in \<open>simp_all add: fl[symmetric]\<close>)
      have 2: "w_fs w' (result_path env s) = w_fs w (result_path env s)"
        by (subst release_at[OF bkc _ _ _ rl]) (use trs lk in \<open>simp_all add: result_path_def backup_path_def lock_path_def\<close>)
      from e g 1 2 False show ?thesis by (simp add: st ro)
    next
      case ro: False
      have t0: "w_fs ?w0 (s_temp ?c) = Some t" using t[OF ro] by (simp add: o0)
      have rs: "restore env ?c ?w0 = (Returned (), ?c,
          ?w0\<lparr>w_fs := ((if s_do_backup ?c then (w_fs ?w0)(backup_path (s_file ?c) := None, s_file ?c \<mapsto> bf)
                  else w_fs ?w0)(result_path env ?c \<mapsto> t))(s_temp ?c := None),
            w_out := w_out ?w0 @ (if s_do_backup ?c then [''Restored file to previous state.''] else [])
                 @ [''Saved calculation results in '' @ path_name (result_path env ?c) @ ''.'']\<rparr>)"
        by (rule restore_write[OF _ bkc _ _ _ t0])
          (use ro tfs tb trs b in \<open>simp_all add: o0 fl result_path_def\<close>)
      have rp: "result_path env ?c = result_path env s" by (simp add: result_path_def)
      from e have rl: "release True ?c
          (?w0\<lparr>w_fs := ((if s_do_backup s then (w_fs w)(backup_path (s_file s) := None, s_file s \<mapsto> bf)
                  else w_fs w)(result_path env s \<mapsto> t))(s_temp s := None),
            w_out := w_out w @ [changed_error s] @ (if s_do_backup s then [''Restored file to previous state.''] else [])
                 @ [''Saved calculation results in '' @ path_name (result_path env s) @ ''.'']\<rparr>)
          = (r, s', w')"
        unfolding eu by (cases "s_do_backup s"; simp add: False rs o0 rp)
      note g = release_gone[OF bkc rl]
      have 1: "w_fs w' (a_file a) = Some (if s_do_backup s then bf else f)"
        by (subst release_at[OF bkc _ _ _ rl]) (use tfs lk f in \<open>simp_all add: fl[symmetric]\<close>)
      have 2: "w_fs w' (result_path env s) = Some t"
        by (subst release_at[OF bkc _ _ _ rl]) (use trs lk in \<open>simp_all add: result_path_def backup_path_def lock_path_def\<close>)
      from e g 1 2 False show ?thesis by (simp add: st ro)
    qed
  qed
qed

lemma ex_init_ro:
  "init 0 ex_env (ex_args ''r'') ex_world = Some
     (Returned (),
      \<lparr>s_do_backup = False, s_keep_backup = False, s_backup_if_readonly = False, s_check_hash = True,
       s_file = ''/d/f'', s_lock = ''/d/f.lock'', s_temp = ''/tmp/t/f'', s_flock_closed = False,
       s_exists = True, s_readonly = True, s_backup = Attr None,
       s_fstat = Attr (8, 7), s_fd = Attr (mk_handle ''/d/f'' ''r'' 0)\<rparr>,
      \<lparr>w_fs = [''/d/f'' \<mapsto> ex_old, ''/d/f.lock'' \<mapsto> new_file],
       w_open = {''/d/f''}, w_out = []\<rparr>)"
proof -
  have a: "acquire 0 (e_sleep ex_env) (lock_path (a_file (ex_args ''r''))) (w_fs ex_world)
      = Some ((w_fs ex_world)(''/d/f.lock'' \<mapsto> new_file))"
    by (simp add: ex_args_def ex_world_def lock_path_def is_file_def)
  show ?thesis
    unfolding init_def a option.case
    by (simp add: init_checks_def init_backup_def init_fstat_def init_fd_def stat_def io_open_def
        is_file_def Let_def ex_args_def ex_world_def clean_mode_def valid_mode_def ex_temp
        lock_path_def ex_old_def)
qed

text \<open>
  C1, as stated, fails: a read-only session on the existing \<open>/d/f\<close> reaches \<open>__exit__\<close> with
  the target's \<open>stat\<close> equal to the one taken at \<open>__init__\<close>; there is no temporary file,
  \<open>__exit__\<close> copies nothing over the target and rolls nothing back, and returns with the
  file system as it was before \<open>__init__\<close>.
\<close>

theorem readonly_close_does_neither:
  "\<exists>s w1 s' w'. init 0 ex_env (ex_args ''r'') ex_world = Some (Returned (), s, w1)
     \<and> s_exists s \<and> stat (w_fs w1) (s_file s) = Inr (8, 7) \<and> s_fstat s = Attr (8, 7)
     \<and> w_fs w1 (s_temp s) = None
     \<and> exit ex_env s w1 = (Returned (), s', w')
     \<and> w_fs w' = w_fs ex_world \<and> w_out w' = []"
proof -
  let ?s = "\<lparr>s_do_backup = False, s_keep_backup = False, s_backup_if_readonly = False, s_check_hash = True,
       s_file = ''/d/f'', s_lock = ''/d/f.lock'', s_temp = ''/tmp/t/f'', s_flock_closed = False,
       s_exists = True, s_readonly = True, s_backup = Attr None,
       s_fstat = Attr (8, 7), s_fd = Attr (mk_handle ''/d/f'' ''r'' 0)\<rparr>"
  let ?w1 = "\<lparr>w_fs = [''/d/f'' \<mapsto> ex_old, ''/d/f.lock'' \<mapsto> new_file],
       w_open = {''/d/f''}, w_out = []\<rparr>"
  have e: "exit ex_env ?s ?w1 = release True (close_fd ?s) ?w1"
    by (simp add: exit_def stat_changed_def stat_def ex_old_def Let_def mv_temp_def)
  obtain s' w' where r: "release True (close_fd ?s) ?w1 = (Returned (), s', w')"
    and w': "w' = ?w1\<lparr>w_fs := (backup_gone (close_fd ?s) ((w_fs ?w1)(s_temp (close_fd ?s) := None)))(s_lock (close_fd ?s) := None),
        w_open := (if True then w_open ?w1 - {s_file (close_fd ?s)} else w_open ?w1)\<rparr>"
    unfolding release_eq by blast
  have 1: "w_fs w' = w_fs ex_world"
    unfolding w' by (simp add: backup_gone_def ex_world_def fun_eq_iff)
  have 2: "w_out w' = []" unfolding w' by simp
  have 3: "stat (w_fs ?w1) (s_file ?s) = Inr (8, 7)" by (simp add: stat_def ex_old_def)
  have 4: "w_fs ?w1 (s_temp ?s) = None" by simp
  have 5: "s_exists ?s" "s_fstat ?s = Attr (8, 7)" by simp_all
  from ex_init_ro e[unfolded r] 1 2 3 4 5 show ?thesis by blast
qed

theorem close_commits_or_rolls_back_witness:
  "\<exists>s w1 s' w'. init 0 ex_env (ex_args ''r+'') ex_world = Some (Returned (), s, w1)
     \<and> s_exists s \<and> \<not> s_readonly s \<and> s_do_backup s \<and> s_check_hash s
     \<and> exit ex_env s (w1\<lparr>w_fs := (w_fs w1)(''/tmp/t/f'' \<mapsto> ex_new)\<rparr>) = (Returned (), s', w')
     \<and> w_fs w' ''/d/f'' = Some ex_new \<and> w_fs w' ''/d/f.lock'' = None \<and> w_fs w' ''/tmp/t/f'' = None
     \<and> w_out w' = []"
proof -
  let ?s = "\<lparr>s_do_backup = True, s_keep_backup = False, s_backup_if_readonly = False, s_check_hash = True,
       s_file = ''/d/f'', s_lock = ''/d/f.lock'', s_temp = ''/tmp/t/f'', s_flock_closed = False,
       s_exists = True, s_readonly = False, s_backup = Attr (Some ''/d/f.backup''),
       s_fstat = Attr (8, 7), s_fd = Attr (mk_handle ''/tmp/t/f'' ''r+'' 0)\<rparr>"
  let ?w1 = "\<lparr>w_fs = [''/d/f'' \<mapsto> ex_old, ''/d/f.lock'' \<mapsto> new_file, ''/d/f.backup'' \<mapsto> ex_old,
               ''/tmp/t/f'' \<mapsto> ex_old],
       w_open = {''/d/f''}, w_out = []\<rparr>"
  let ?w = "?w1\<lparr>w_fs := (w_fs ?w1)(''/tmp/t/f'' \<mapsto> ex_new)\<rparr>"
  have ex: "s_exists ?s" by simp
  have tf: "temp_path ex_env (a_file (ex_args ''r+'')) \<noteq> a_file (ex_args ''r+'')"
    by (simp add: ex_args_def ex_temp)
  have now: "CHR ''/'' \<notin> set (e_now ex_env)" by (simp add: ex_env_def)
  have f: "w_fs ?w (a_file (ex_args ''r+'')) = Some ex_old" by (simp add: ex_args_def)
  have t: "\<not> s_readonly ?s \<Longrightarrow> w_fs ?w (s_temp ?s) = Some ex_new" by simp
  have b: "s_do_backup ?s \<Longrightarrow> w_fs ?w (backup_path (a_file (ex_args ''r+''))) = Some ex_old"
    by (simp add: ex_args_def backup_path_def)
  have hs: "e_blake2b ex_env (e_medium ex_env (f_content ex_new)) = e_blake2b ex_env (f_content ex_new)"
    by (simp add: ex_env_def)
  from close_commits_or_rolls_back[OF ex_init_rw ex tf now f t b hs]
  obtain s' w' where "exit ex_env ?s ?w = (Returned (), s', w')"
    "w_fs w' ''/d/f'' = Some ex_new" "w_fs w' ''/d/f.lock'' = None" "w_fs w' ''/tmp/t/f'' = None"
    "w_out w' = []"
    by (auto simp: ex_old_def ex_args_def ex_env_def)
  with ex_init_rw show ?thesis by auto
qed

subsection \<open>__exit__ when the digests differ\<close>

lemma mv_temp_after_restore:
  assumes ro: "\<not> s_readonly s" and tf: "s_temp s \<noteq> s_file s"
    and t: "w_fs w (s_temp s) = Some t"
    and ch: "s_check_hash s"
    and hd: "e_blake2b env (f_content t) \<noteq> e_blake2b env (e_medium env (f_content t))"
    and rs: "restore env s (py_print (hash_warning s)
               (w\<lparr>w_fs := (w_fs w)(s_file s \<mapsto> t\<lparr>f_content := e_medium env (f_content t)\<rparr>)\<rparr>))
             = (r, s2, w2)"
  shows "mv_temp env None s w =
     (case r of
        Raised e \<Rightarrow> (Raised e, s2, w2)
      | Returned u \<Rightarrow>
          (case unlink (s_temp s2) (w_fs w2) of
             Inl e \<Rightarrow> (Raised e, s2, w2)
           | Inr f3 \<Rightarrow> (Returned (), s2, w2\<lparr>w_fs := f3\<rparr>)))"
  using ro tf t ch hd
  by (cases r) (simp_all add: mv_temp_def commit_copy_def hashes_differ_def get_hash_def rs)

lemma ex_init_rw_bad:
  "init 0 ex_env_bad (ex_args ''r+'') ex_world = Some
     (Returned (),
      \<lparr>s_do_backup = True, s_keep_backup = False, s_backup_if_readonly = False, s_check_hash = True,
       s_file = ''/d/f'', s_lock = ''/d/f.lock'', s_temp = ''/tmp/t/f'', s_flock_closed = False,
       s_exists = True, s_readonly = False, s_backup = Attr (Some ''/d/f.backup''),
       s_fstat = Attr (8, 7), s_fd = Attr (mk_handle ''/tmp/t/f'' ''r+'' 0)\<rparr>,
      \<lparr>w_fs = [''/d/f'' \<mapsto> ex_old, ''/d/f.lock'' \<mapsto> new_file, ''/d/f.backup'' \<mapsto> ex_old,
               ''/tmp/t/f'' \<mapsto> ex_old],
       w_open = {''/d/f''}, w_out = []\<rparr>)"
proof -
  have cm: "clean_mode True (a_mode (ex_args ''r+'')) = ''r+''"
    by (simp add: ex_args_def clean_mode_def)
  have tp: "temp_path ex_env_bad ''/d/f'' = ''/tmp/t/f''"
    by (simp add: temp_path_def ex_env_bad_def ex_env_def path_name_def)
  show ?thesis
    by (subst init_existing_write[where x = ex_old])
      (simp_all add: cm valid_mode_def,
       simp_all add: ex_args_def ex_world_def lock_path_def backup_path_def tp ex_old_def)
qed

text \<open>
  C3: the code at a failing input. A session on the existing \<open>/d/f\<close>, opened with \<open>r+\<close> and
  the default flags, has \<open>new data!\<close> in its temporary file; the copy over the target stops
  after three bytes, so the digests differ. \<open>mv_temp\<close> prints the warning and calls
  \<open>restore\<close>, which renames the backup onto the target, saves the temporary file as the
  \<open>.result\<close> file and unlinks it; \<open>mv_temp\<close> then unlinks the temporary file a second time,
  and \<open>__exit__\<close> raises \<open>FileNotFoundError\<close> before it reaches \<open>release\<close>: the lock file
  is still there and the session is still registered.
\<close>

theorem hash_mismatch_raises:
  "\<exists>s w1 s' w'. init 0 ex_env_bad (ex_args ''r+'') ex_world = Some (Returned (), s, w1)
     \<and> s_check_hash s \<and> \<not> s_readonly s
     \<and> exit ex_env_bad s (w1\<lparr>w_fs := (w_fs w1)(''/tmp/t/f'' \<mapsto> ex_new)\<rparr>)
         = (Raised FileNotFoundError, s', w')
     \<and> w_out w' = [hash_warning s, ''Restored file to previous state.'',
                    ''Saved calculation results in f__2022-04-18T12:00:00.result.'']
     \<and> w_fs w' ''/d/f'' = Some ex_old
     \<and> w_fs w' ''/d/f__2022-04-18T12:00:00.result'' = Some ex_new
     \<and> is_file (w_fs w') ''/d/f.lock'' \<and> ''/d/f'' \<in> w_open w'"
proof -
  let ?s = "\<lparr>s_do_backup = True, s_keep_backup = False, s_backup_if_readonly = False, s_check_hash = True,
       s_file = ''/d/f'', s_lock = ''/d/f.lock'', s_temp = ''/tmp/t/f'', s_flock_closed = False,
       s_exists = True, s_readonly = False, s_backup = Attr (Some ''/d/f.backup''),
       s_fstat = Attr (8, 7), s_fd = Attr (mk_handle ''/tmp/t/f'' ''r+'' 0)\<rparr>"
  let ?w1 = "\<lparr>w_fs = [''/d/f'' \<mapsto> ex_old, ''/d/f.lock'' \<mapsto> new_file, ''/d/f.backup'' \<mapsto> ex_old,
               ''/tmp/t/f'' \<mapsto> ex_old],
       w_open = {''/d/f''}, w_out = []\<rparr>"
  let ?w = "?w1\<lparr>w_fs := (w_fs ?w1)(''/tmp/t/f'' \<mapsto> ex_new)\<rparr>"
  let ?c = "close_fd ?s"
  have c: "?c = ?s\<lparr>s_fd := Attr ((mk_handle ''/tmp/t/f'' ''r+'' 0)\<lparr>h_closed := True\<rparr>)\<rparr>"
    by (simp add: close_fd_def mk_handle_def)
  have rp: "result_path ex_env_bad ?c = ''/d/f__2022-04-18T12:00:00.result''"
    by (simp add: result_path_def ex_env_bad_def ex_env_def)
  have pn: "path_name ''/d/f__2022-04-18T12:00:00.result'' = ''f__2022-04-18T12:00:00.result''"
    by (simp add: path_name_def)
  have eu: "exit ex_env_bad ?s ?w =
     (case mv_temp ex_env_bad None ?c ?w of
        (Raised e, s2, w2) \<Rightarrow> (Raised e, s2, w2)
      | (Returned u, s2, w2) \<Rightarrow> release True s2 w2)"
  proof -
    have 1: "s_fd ?s = Attr (mk_handle ''/tmp/t/f'' ''r+'' 0)" "s_exists ?s" "s_fstat ?s = Attr (8, 7)"
      "w_fs ?w (s_file ?s) = Some ex_old"
      by simp_all
    show ?thesis
      unfolding exit_unfold[OF 1] by (simp add: ex_old_def)
  qed
  let ?wa = "py_print (hash_warning ?c)
               (?w\<lparr>w_fs := (w_fs ?w)(s_file ?c \<mapsto> ex_new\<lparr>f_content := e_medium ex_env_bad (f_content ex_new)\<rparr>)\<rparr>)"
  let ?wr = "?wa\<lparr>w_fs := ((if s_do_backup ?c then (w_fs ?wa)(backup_path (s_file ?c) := None, s_file ?c \<mapsto> ex_old)
                  else w_fs ?wa)(result_path ex_env_bad ?c \<mapsto> ex_new))(s_temp ?c := None),
        w_out := w_out ?wa @ (if s_do_backup ?c then [''Restored file to previous state.''] else [])
                 @ [''Saved calculation results in '' @ path_name (result_path ex_env_bad ?c) @ ''.'']\<rparr>"
  have rs: "restore ex_env_bad ?c ?wa = (Returned (), ?c, ?wr)"
    by (rule restore_write) (simp_all add: backup_path_def rp py_print_def)
  have ro: "\<not> s_readonly ?c" and tf: "s_temp ?c \<noteq> s_file ?c"
    and tt: "w_fs ?w (s_temp ?c) = Some ex_new" and ch: "s_check_hash ?c"
    by simp_all
  have hd: "e_blake2b ex_env_bad (f_content ex_new) \<noteq> e_blake2b ex_env_bad (e_medium ex_env_bad (f_content ex_new))"
    by (simp add: ex_env_bad_def ex_env_def ex_new_def)
  have gone: "unlink (s_temp ?c) (w_fs ?wr) = Inl FileNotFoundError"
    by (simp add: unlink_def is_file_def)
  have mt: "mv_temp ex_env_bad None ?c ?w = (Raised FileNotFoundError, ?c, ?wr)"
    unfolding mv_temp_after_restore[OF ro tf tt ch hd rs] outcome.case gone by simp
  have e: "exit ex_env_bad ?s ?w = (Raised FileNotFoundError, ?c, ?wr)"
    unfolding eu mt by simp
  have o: "w_out ?wr = [hash_warning ?s, ''Restored file to previous state.'',
                    ''Saved calculation results in f__2022-04-18T12:00:00.result.'']"
    by (simp add: rp pn py_print_def hash_warning_def)
  have fsw: "w_fs ?wr ''/d/f'' = Some ex_old" "w_fs ?wr ''/d/f__2022-04-18T12:00:00.result'' = Some ex_new"
    "is_file (w_fs ?wr) ''/d/f.lock''" "''/d/f'' \<in> w_open ?wr"
    by (simp_all add: rp backup_path_def py_print_def is_file_def)
  have fl: "s_check_hash ?s" "\<not> s_readonly ?s" by simp_all
  show ?thesis
    apply (rule exI[of _ ?s], rule exI[of _ ?w1], rule exI[of _ ?c], rule exI[of _ ?wr])
    apply (intro conjI)
            apply (rule ex_init_rw_bad)
           apply (rule fl)+
         apply (rule e)
        apply (rule o)
       apply (rule fsw)+
    done
qed

lemma ex_init_new:
  "init 0 ex_env_bad ex_args_new ex_world = Some
     (Returned (),
      \<lparr>s_do_backup = True, s_keep_backup = False, s_backup_if_readonly = False, s_check_hash = True,
       s_file = ''/d/g'', s_lock = ''/d/g.lock'', s_temp = ''/tmp/t/g'', s_flock_closed = False,
       s_exists = False, s_readonly = False, s_backup = Attr None,
       s_fstat = Unset, s_fd = Attr (mk_handle ''/tmp/t/g'' ''x'' 0)\<rparr>,
      \<lparr>w_fs = [''/d/f'' \<mapsto> ex_old, ''/d/g.lock'' \<mapsto> new_file, ''/tmp/t/g'' \<mapsto> new_file],
       w_open = {''/d/g''}, w_out = []\<rparr>)"
proof -
  have a: "acquire 0 (e_sleep ex_env_bad) (lock_path (a_file ex_args_new)) (w_fs ex_world)
      = Some ((w_fs ex_world)(''/d/g.lock'' \<mapsto> new_file))"
    by (simp add: ex_args_new_def ex_world_def lock_path_def is_file_def)
  have tp: "temp_path ex_env_bad ''/d/g'' = ''/tmp/t/g''"
    by (simp add: temp_path_def ex_env_bad_def ex_env_def path_name_def)
  show ?thesis
    unfolding init_def a option.case
    by (simp add: init_checks_def init_backup_def init_fstat_def init_fd_def io_open_def
        is_file_def Let_def ex_args_new_def ex_world_def clean_mode_def valid_mode_def tp
        lock_path_def)
qed

text \<open>
  C5: the code at a failing input. A session that creates \<open>/d/g\<close> (mode \<open>x\<close>, default flags)
  has \<open>result\<close> in its temporary file; the copy over the target stops after three bytes, so
  the digests differ and \<open>mv_temp\<close> calls \<open>restore\<close>. \<open>_do_backup\<close> is set, but there was
  nothing to back up and \<open>_backup\<close> is \<open>None\<close>: \<open>self._backup.rename\<close> raises
  \<open>AttributeError\<close> before the temporary file is saved. No \<open>.result\<close> file is written and
  the temporary file is not removed.
\<close>

theorem rollback_of_new_file_raises:
  "\<exists>s w1 s2 w2 s' w'. init 0 ex_env_bad ex_args_new ex_world = Some (Returned (), s, w1)
     \<and> \<not> s_readonly s \<and> s_do_backup s \<and> s_backup s = Attr None
     \<and> do_calls [Write ''result''] s w1 = (Returned (), s2, w2)
     \<and> exit ex_env_bad s2 w2 = (Raised AttributeError, s', w')
     \<and> w_out w' = [hash_warning s]
     \<and> w_fs w' (result_path ex_env_bad s) = None
     \<and> map_option f_content (w_fs w' (s_temp s)) = Some ''result''
     \<and> map_option f_content (w_fs w' ''/d/g'') = Some ''res''
     \<and> is_file (w_fs w') ''/d/g.lock''"
proof -
  let ?s = "\<lparr>s_do_backup = True, s_keep_backup = False, s_backup_if_readonly = False, s_check_hash = True,
       s_file = ''/d/g'', s_lock = ''/d/g.lock'', s_temp = ''/tmp/t/g'', s_flock_closed = False,
       s_exists = False, s_readonly = False, s_backup = Attr None,
       s_fstat = Unset, s_fd = Attr (mk_handle ''/tmp/t/g'' ''x'' 0)\<rparr>"
  let ?w1 = "\<lparr>w_fs = [''/d/f'' \<mapsto> ex_old, ''/d/g.lock'' \<mapsto> new_file, ''/tmp/t/g'' \<mapsto> new_file],
       w_open = {''/d/g''}, w_out = []\<rparr>"
  let ?t = "\<lparr>f_content = ''result'', f_meta = 0\<rparr>"
  let ?h2 = "(mk_handle ''/tmp/t/g'' ''x'' 0)\<lparr>h_pos := 6\<rparr>"
  let ?s2 = "?s\<lparr>s_fd := Attr ?h2\<rparr>"
  let ?w2 = "?w1\<lparr>w_fs := (w_fs ?w1)(''/tmp/t/g'' \<mapsto> ?t)\<rparr>"
  have dc: "do_calls [Write ''result''] ?s ?w1 = (Returned (), ?s2, ?w2)"
    by (simp add: do_call_def h_write_def mk_handle_def pad_to_def new_file_def Let_def)
  let ?c = "close_fd ?s2"
  have eu: "exit ex_env_bad ?s2 ?w2 =
     (case mv_temp ex_env_bad None ?c ?w2 of
        (Raised e, s2, w2) \<Rightarrow> (Raised e, s2, w2)
      | (Returned u, s2, w2) \<Rightarrow> release True s2 w2)"
    by (rule exit_new_target) simp_all
  let ?wa = "py_print (hash_warning ?c)
               (?w2\<lparr>w_fs := (w_fs ?w2)(s_file ?c \<mapsto> ?t\<lparr>f_content := e_medium ex_env_bad (f_content ?t)\<rparr>)\<rparr>)"
  have rs: "restore ex_env_bad ?c ?wa = (Raised AttributeError, ?c, ?wa)"
    by (simp add: restore_def restore_backup_def)
  have ro: "\<not> s_readonly ?c" and tf: "s_temp ?c \<noteq> s_file ?c"
    and tt: "w_fs ?w2 (s_temp ?c) = Some ?t" and ch: "s_check_hash ?c"
    by simp_all
  have hd: "e_blake2b ex_env_bad (f_content ?t) \<noteq> e_blake2b ex_env_bad (e_medium ex_env_bad (f_content ?t))"
    by (simp add: ex_env_bad_def ex_env_def)
  have mt: "mv_temp ex_env_bad None ?c ?w2 = (Raised AttributeError, ?c, ?wa)"
    unfolding mv_temp_after_restore[OF ro tf tt ch hd rs] by simp
  have e: "exit ex_env_bad ?s2 ?w2 = (Raised AttributeError, ?c, ?wa)"
    unfolding eu mt by simp
  have o: "w_out ?wa = [hash_warning ?s]"
    by (simp add: py_print_def hash_warning_def)
  have fsw: "w_fs ?wa (result_path ex_env_bad ?s) = None"
    "map_option f_content (w_fs ?wa (s_temp ?s)) = Some ''result''"
    "map_option f_content (w_fs ?wa ''/d/g'') = Some ''res''"
    "is_file (w_fs ?wa) ''/d/g.lock''"
    by (simp_all add: py_print_def is_file_def result_path_def ex_env_bad_def ex_env_def)
  have fl: "\<not> s_readonly ?s" "s_do_backup ?s" "s_backup ?s = Attr None" by simp_all
  show ?thesis
    apply (rule exI[of _ ?s], rule exI[of _ ?w1], rule exI[of _ ?s2], rule exI[of _ ?w2],
        rule exI[of _ ?c], rule exI[of _ ?wa])
    apply (intro conjI)
              apply (rule ex_init_new)
             apply (rule fl)+
          apply (rule dc)
         apply (rule e)
        apply (rule o)
       apply (rule fsw)+
    done
qed

subsection \<open>The metadata object\<close>

declare digits.simps [simp del]

text \<open>
  C10. When the value passed equals (Python's \<open>==\<close>) the attribute's current value,
  \<open>_set_property\<close> returns at once: the object is the same, so the attribute was not
  assigned, and the world is the same, so no lock file was made and the metadata file was
  not written; \<open>_check_not_changed\<close> and \<open>_store\<close>, the only readers and writers of the file,
  are not reached.
\<close>

theorem set_property_same_value:
  assumes "getattr_private obj prop = Inr cur" and "py_eq cur val"
  shows "set_property fuel env lib prop val obj w = Some (Returned (), obj, w)"
  using assms by (simp add: set_property_def)

theorem set_property_same_value_witness:
  "getattr_private ex_meta ''turns'' = Inr (PInt 100) \<and> py_eq (PInt 100) (PInt 100)
   \<and> set_property 0 ex_env ex_lib ''turns'' (PInt 100) ex_meta (ex_meta_world doc_dense)
       = Some (Returned (), ex_meta, ex_meta_world doc_dense)"
proof -
  have g: "getattr_private ex_meta ''turns'' = Inr (PInt 100)"
    by (simp add: getattr_private_def ex_meta_def)
  have e: "py_eq (PInt 100) (PInt 100)" by simp
  from set_property_same_value[OF g e] g e show ?thesis by simp
qed

lemma exit_commit:
  assumes fd: "s_fd s = Attr h" and ex: "s_exists s"
    and st: "s_fstat s = Attr (length (f_content f), f_meta f)"
    and f: "w_fs w (s_file s) = Some f"
    and ro: "\<not> s_readonly s" and tf: "s_temp s \<noteq> s_file s"
    and t: "w_fs w (s_temp s) = Some t"
    and hh: "e_blake2b env (e_medium env (f_content t)) = e_blake2b env (f_content t)"
  shows "exit env s w = release True (close_fd s)
     (w\<lparr>w_fs := ((w_fs w)(s_file s \<mapsto> t\<lparr>f_content := e_medium env (f_content t)\<rparr>))(s_temp s := None)\<rparr>)"
proof -
  have mt: "mv_temp env None (close_fd s) w = (Returned (), close_fd s,
      w\<lparr>w_fs := ((w_fs w)(s_file (close_fd s) \<mapsto> t\<lparr>f_content := e_medium env (f_content t)\<rparr>))(s_temp (close_fd s) := None)\<rparr>)"
    by (rule mv_temp_commit) (use ro tf t hh in simp_all)
  show ?thesis
    unfolding exit_unfold[OF fd ex st f] by (simp add: mt)
qed

lemma fd_read_all:
  assumes "s_fd s = Attr h" "\<not> h_closed h" "h_readable h" "h_pos h = 0" "w_fs w (h_path h) = Some x"
  shows "fd_read s w = (Returned (f_content x), s\<lparr>s_fd := Attr (h\<lparr>h_pos := length (f_content x)\<rparr>)\<rparr>, w)"
  using assms by (simp add: fd_read_def h_read_def)

lemma rewrite_calls:
  assumes "s_fd s = Attr h" "\<not> h_closed h" "h_writable h" "\<not> h_append h" "w_fs w (h_path h) = Some x"
  shows "do_calls [Truncate 0, Seek 0, Write d] s w =
     (Returned (), s\<lparr>s_fd := Attr (h\<lparr>h_pos := length d\<rparr>)\<rparr>,
      w\<lparr>w_fs := (w_fs w)(h_path h \<mapsto> x\<lparr>f_content := d\<rparr>)\<rparr>)"
  using assms
  by (simp add: do_call_def h_truncate_def h_seek_def h_write_def pad_to_def Let_def)

lemma new_submission_id_eval:
  assumes l: "w_fs w (lock_path (meta_file obj)) = None"
    and f: "w_fs w (meta_file obj) = Some f"
    and tf: "temp_path env (meta_file obj) \<noteq> meta_file obj"
    and p: "j_loads lib (f_content f) = Some doc"
    and m: "of_json doc = PDict meta"
    and sb: "dict_get (KStr ''submissions'') meta = Some (PDict subs)"
    and meta': "meta' = dict_set (KStr ''submissions'')
                  (PDict (dict_set (KInt (int (length subs))) PNone subs)) meta"
    and md: "e_medium env (j_dumps lib (to_json (PDict meta'))) = j_dumps lib (to_json (PDict meta'))"
  shows "\<exists>w'. new_submission_id fuel env lib obj w =
        Some (Returned (int (length subs)),
              obj\<lparr>m_attrs := (m_attrs obj)(''submissions'' \<mapsto> PDict meta')\<rparr>, w')
     \<and> w_fs w' (meta_file obj) = Some (f\<lparr>f_content := j_dumps lib (to_json (PDict meta'))\<rparr>)
     \<and> w_fs w' (lock_path (meta_file obj)) = None
     \<and> w_fs w' (temp_path env (meta_file obj)) = None
     \<and> w_out w' = w_out w"
proof -
  define mf where "mf = meta_file obj"
  define a where "a = protect_args mf ''r+''"
  define tp where "tp = temp_path env mf"
  define c' where "c' = j_dumps lib (to_json (PDict meta'))"
  define h where "h = mk_handle tp ''r+'' 0"
  define S where "S = \<lparr>s_do_backup = True, s_keep_backup = False, s_backup_if_readonly = False,
       s_check_hash = True, s_file = mf, s_lock = lock_path mf, s_temp = tp, s_flock_closed = False,
       s_exists = True, s_readonly = False, s_backup = Attr (Some (backup_path mf)),
       s_fstat = Attr (length (f_content f), f_meta f), s_fd = Attr h\<rparr>"
  define W1 where "W1 = w\<lparr>w_fs := (w_fs w)(lock_path mf \<mapsto> new_file, backup_path mf \<mapsto> f, tp \<mapsto> f),
         w_open := insert mf (w_open w)\<rparr>"
  have af: "a_file a = mf" "a_mode a = ''r+''" "a_backup a = False" "a_backup_during_lock a = True"
    "a_backup_if_readonly a = False" "a_check_hash a = True"
    by (simp_all add: a_def protect_args_def)
  have cm: "clean_mode True ''r+'' = ''r+''" by (simp add: clean_mode_def)
  have i: "init fuel env a w = Some (Returned (), S, W1)"
    by (subst init_existing_write[where x = f])
      (use l f tf in \<open>simp_all add: af cm valid_mode_def mf_def[symmetric] tp_def[symmetric] S_def W1_def h_def\<close>)
  have hp: "h_path h = tp" "\<not> h_closed h" "h_readable h" "h_writable h" "\<not> h_append h" "h_pos h = 0"
    by (simp_all add: h_def mk_handle_def)
  define h1 where "h1 = h\<lparr>h_pos := length (f_content f)\<rparr>"
  define S1 where "S1 = S\<lparr>s_fd := Attr h1\<rparr>"
  have rd: "fd_read S W1 = (Returned (f_content f), S1, W1)"
    unfolding S1_def h1_def
    by (rule fd_read_all[where h = h]) (simp_all add: S_def hp W1_def)
  have hp1: "h_path h1 = tp" "\<not> h_closed h1" "h_writable h1" "\<not> h_append h1"
    by (simp_all add: h1_def hp)
  define S2 where "S2 = S1\<lparr>s_fd := Attr (h1\<lparr>h_pos := length c'\<rparr>)\<rparr>"
  define W2 where "W2 = W1\<lparr>w_fs := (w_fs W1)(tp \<mapsto> f\<lparr>f_content := c'\<rparr>)\<rparr>"
  have wr: "do_calls [Truncate 0, Seek 0, Write c'] S1 W1 = (Returned (), S2, W2)"
    unfolding S2_def W2_def hp1(1)[symmetric]
    by (rule rewrite_calls[where h = h1]) (simp_all add: S1_def hp1 W1_def)
  have body: "new_id_body lib obj S W1 =
      (Returned (int (length subs)), obj\<lparr>m_attrs := (m_attrs obj)(''submissions'' \<mapsto> PDict meta')\<rparr>, S2, W2)"
    unfolding meta'
    by (simp only: new_id_body_def rd p m sb wr[unfolded c'_def meta'] Let_def prod.case
        outcome.case option.case pyval.case)
  have mfn: "mf \<noteq> tp" "tp \<noteq> mf" using tf by (auto simp: tp_def mf_def)
  have fm: "w_fs w mf = Some f" using f by (simp add: mf_def)
  define W3 where "W3 = W2\<lparr>w_fs := ((w_fs W2)(mf \<mapsto> f\<lparr>f_content := c'\<rparr>))(tp := None)\<rparr>"
  have e0: "exit env S2 W2 = release True (close_fd S2)
     (W2\<lparr>w_fs := ((w_fs W2)(s_file S2 \<mapsto> (f\<lparr>f_content := c'\<rparr>)\<lparr>f_content := e_medium env (f_content (f\<lparr>f_content := c'\<rparr>))\<rparr>))(s_temp S2 := None)\<rparr>)"
    by (rule exit_commit[where h = "h1\<lparr>h_pos := length c'\<rparr>" and f = f])
      (use mfn md fm in \<open>simp_all add: S2_def S1_def S_def W2_def W1_def c'_def\<close>)
  have e: "exit env S2 W2 = release True (close_fd S2) W3"
    unfolding e0 W3_def using md by (simp add: S2_def S1_def S_def c'_def)
  obtain r s' w' where rl: "release True (close_fd S2) W3 = (r, s', w')"
    by (metis prod_cases3)
  have bk: "s_backup (close_fd S2) = Attr (if True then Some (backup_path mf) else None)"
    by (simp add: S2_def S1_def S_def)
  note g = release_gone[OF bk rl]
  have tgt: "w_fs w' mf = Some (f\<lparr>f_content := c'\<rparr>)"
    by (subst release_at[OF bk _ _ _ rl])
      (use mfn md fm in \<open>simp_all add: S2_def S1_def S_def W3_def\<close>)
  have np: "new_submission_id fuel env lib obj w =
        Some (Returned (int (length subs)),
              obj\<lparr>m_attrs := (m_attrs obj)(''submissions'' \<mapsto> PDict meta')\<rparr>, w')"
    unfolding new_submission_id_def with_protect_def mf_def[symmetric] a_def[symmetric]
    by (simp add: i body e rl g)
  have "w_fs w' (lock_path mf) = None" "w_fs w' tp = None"
    using g(1,2) by (simp_all add: S2_def S1_def S_def)
  moreover have "w_out w' = w_out w"
    using g(4) by (simp add: W3_def W2_def W1_def)
  ultimately show ?thesis
    using np tgt by (auto simp: mf_def tp_def c'_def)
qed

subsection \<open>new_submission_id\<close>

lemma dict_set_fresh: "k \<notin> fst ` set d \<Longrightarrow> dict_set k v d = d @ [(k, v)]"
  by (simp add: dict_set_def)

lemma dict_set_present:
  "dict_get k d = Some v0 \<Longrightarrow> dict_set k v d = map (\<lambda>m. if fst m = k then (k, v) else m) d"
  by (auto simp: dict_set_def dict_get_def dest: map_of_SomeD intro: rev_image_eqI)

text \<open>
  C7, as the code has it. The metadata file holds a document whose \<open>submissions\<close> map has
  \<open>n\<close> entries, none of them under the key \<open>n\<close>; nobody else holds the lock, and the copy over
  the target succeeds. Then \<open>new_submission_id\<close> returns \<open>n\<close>, and the file holds the document
  that was loaded, with one member more in \<open>submissions\<close>: the new name \<open>n\<close>, with \<open>null\<close>, after
  the members that were there, which are unchanged.
\<close>

theorem new_submission_id_appends:
  assumes l: "w_fs w (lock_path (meta_file obj)) = None"
    and f: "w_fs w (meta_file obj) = Some f"
    and tf: "temp_path env (meta_file obj) \<noteq> meta_file obj"
    and p: "j_loads lib (f_content f) = Some doc"
    and m: "of_json doc = PDict meta"
    and sb: "dict_get (KStr ''submissions'') meta = Some (PDict subs)"
    and fresh: "py_str (int (length subs)) \<notin> key_str ` fst ` set subs"
    and doc': "doc' = JObj (map (\<lambda>m. (key_str (fst m),
                     if fst m = KStr ''submissions''
                     then JObj (map (\<lambda>m. (key_str (fst m), to_json (snd m))) subs
                                @ [(py_str (int (length subs)), JNull)])
                     else to_json (snd m))) meta)"
    and md: "e_medium env (j_dumps lib doc') = j_dumps lib doc'"
  shows "\<exists>obj' w'. new_submission_id fuel env lib obj w = Some (Returned (int (length subs)), obj', w')
     \<and> map_option f_content (w_fs w' (meta_file obj)) = Some (j_dumps lib doc')
     \<and> w_fs w' (lock_path (meta_file obj)) = None"
proof -
  define n where "n = int (length subs)"
  define meta' where "meta' = dict_set (KStr ''submissions'') (PDict (dict_set (KInt n) PNone subs)) meta"
  have nk: "KInt n \<notin> fst ` set subs"
  proof
    assume "KInt n \<in> fst ` set subs"
    then have "key_str (KInt n) \<in> key_str ` fst ` set subs" by (rule imageI)
    with fresh show False by (simp add: n_def)
  qed
  have s1: "dict_set (KInt n) PNone subs = subs @ [(KInt n, PNone)]"
    using nk by (rule dict_set_fresh)
  have s2: "meta' = map (\<lambda>m. if fst m = KStr ''submissions''
                              then (KStr ''submissions'', PDict (subs @ [(KInt n, PNone)])) else m) meta"
    unfolding meta'_def s1 using sb by (rule dict_set_present)
  have tj: "to_json (PDict meta') = doc'"
    unfolding doc' s2 by (simp add: n_def comp_def)
  have md': "e_medium env (j_dumps lib (to_json (PDict meta'))) = j_dumps lib (to_json (PDict meta'))"
    unfolding tj by (rule md)
  from new_submission_id_eval[OF l f tf p m sb meta'_def[unfolded n_def] md', of fuel]
  show ?thesis
    unfolding tj by auto
qed

lemma ex_meta_paths:
  "meta_file ex_meta = ''/d/study.meta.json''"
  "temp_path ex_env ''/d/study.meta.json'' = ''/tmp/t/study.meta.json''"
  by (simp_all add: meta_file_def ex_meta_def temp_path_def ex_env_def path_name_def)

lemma ex_renders:
  "render doc_dense = ''{\"turns\": 100, \"submissions\": {\"0\": null}}''"
  "render doc_dense' = ''{\"turns\": 100, \"submissions\": {\"0\": null, \"1\": null}}''"
  "render doc_gap = ''{\"turns\": 100, \"submissions\": {\"1\": \"done\"}}''"
  "render doc_gap' = ''{\"turns\": 100, \"submissions\": {\"1\": \"done\", \"1\": null}}''"
  by (simp_all add: doc_dense_def doc_dense'_def doc_gap_def doc_gap'_def py_str_def digits.simps)

lemma ex_loads:
  "j_loads ex_lib (render doc_dense) = Some doc_dense"
  "j_loads ex_lib (render doc_gap) = Some doc_gap"
  "j_loads ex_lib (render doc_gap') = Some doc_gap'"
  by (simp_all add: ex_lib_def ex_renders)

lemma ex_of_json:
  "of_json doc_dense = PDict [(KStr ''turns'', PInt 100), (KStr ''submissions'', PDict [(KStr ''0'', PNone)])]"
  "of_json doc_gap = PDict [(KStr ''turns'', PInt 100), (KStr ''submissions'', PDict [(KStr ''1'', PStr ''done'')])]"
  "of_json doc_gap' = PDict [(KStr ''turns'', PInt 100), (KStr ''submissions'', PDict [(KStr ''1'', PNone)])]"
  by (simp_all add: doc_dense_def doc_gap_def doc_gap'_def of_pairs_def dict_set_def)

theorem new_submission_id_appends_witness:
  "\<exists>obj' w'. new_submission_id 0 ex_env ex_lib ex_meta (ex_meta_world doc_dense)
        = Some (Returned 1, obj', w')
     \<and> map_option f_content (w_fs w' ''/d/study.meta.json'') = Some (render doc_dense')
     \<and> w_fs w' ''/d/study.meta.json.lock'' = None"
proof -
  let ?f = "\<lparr>f_content = render doc_dense, f_meta = 3\<rparr>"
  let ?meta = "[(KStr ''turns'', PInt 100), (KStr ''submissions'', PDict [(KStr ''0'', PNone)])]"
  let ?subs = "[(KStr ''0'', PNone)]"
  have l: "w_fs (ex_meta_world doc_dense) (lock_path (meta_file ex_meta)) = None"
    by (simp add: ex_meta_world_def ex_meta_paths lock_path_def)
  have f: "w_fs (ex_meta_world doc_dense) (meta_file ex_meta) = Some ?f"
    by (simp add: ex_meta_world_def ex_meta_paths)
  have tf: "temp_path ex_env (meta_file ex_meta) \<noteq> meta_file ex_meta"
    by (simp add: ex_meta_paths)
  have p: "j_loads ex_lib (f_content ?f) = Some doc_dense"
    by (simp add: ex_loads)
  have m: "of_json doc_dense = PDict ?meta" by (rule ex_of_json)
  have sb: "dict_get (KStr ''submissions'') ?meta = Some (PDict ?subs)"
    by (simp add: dict_get_def)
  have fresh: "py_str (int (length ?subs)) \<notin> key_str ` fst ` set ?subs"
    by (simp add: py_str_def digits.simps)
  have doc': "doc_dense' = JObj (map (\<lambda>m. (key_str (fst m),
                     if fst m = KStr ''submissions''
                     then JObj (map (\<lambda>m. (key_str (fst m), to_json (snd m))) ?subs
                                @ [(py_str (int (length ?subs)), JNull)])
                     else to_json (snd m))) ?meta)"
    by (simp add: doc_dense'_def py_str_def digits.simps)
  have md: "e_medium ex_env (j_dumps ex_lib doc_dense') = j_dumps ex_lib doc_dense'"
    by (simp add: ex_env_def)
  from new_submission_id_appends[OF l f tf p m sb fresh doc' md, of 0]
  show ?thesis
    by (simp add: ex_meta_paths lock_path_def ex_lib_def)
qed

text \<open>
  C7, as stated, fails: the metadata file holds \<open>{"turns": 100, "submissions": {"1": "done"}}\<close>,
  a map of one entry. \<open>new_submission_id\<close> returns 1 and writes a second member of the name
  \<open>1\<close>; read back, the map still has the one key \<open>1\<close>, now with \<open>null\<close>: no key is new, and
  the value of the key that was there is changed.
\<close>

theorem new_submission_id_overwrites:
  "\<exists>obj' w' c. of_json doc_gap = PDict [(KStr ''turns'', PInt 100),
                                         (KStr ''submissions'', PDict [(KStr ''1'', PStr ''done'')])]
     \<and> (\<exists>d. j_loads ex_lib d = Some doc_gap
             \<and> map_option f_content (w_fs (ex_meta_world doc_gap) ''/d/study.meta.json'') = Some d)
     \<and> new_submission_id 0 ex_env ex_lib ex_meta (ex_meta_world doc_gap) = Some (Returned 1, obj', w')
     \<and> map_option f_content (w_fs w' ''/d/study.meta.json'') = Some c
     \<and> j_loads ex_lib c = Some doc_gap'
     \<and> of_json doc_gap' = PDict [(KStr ''turns'', PInt 100),
                                   (KStr ''submissions'', PDict [(KStr ''1'', PNone)])]"
proof -
  let ?f = "\<lparr>f_content = render doc_gap, f_meta = 3\<rparr>"
  let ?meta = "[(KStr ''turns'', PInt 100), (KStr ''submissions'', PDict [(KStr ''1'', PStr ''done'')])]"
  let ?subs = "[(KStr ''1'', PStr ''done'')]"
  let ?meta' = "dict_set (KStr ''submissions'') (PDict (dict_set (KInt (int (length ?subs))) PNone ?subs)) ?meta"
  have l: "w_fs (ex_meta_world doc_gap) (lock_path (meta_file ex_meta)) = None"
    by (simp add: ex_meta_world_def ex_meta_paths lock_path_def)
  have f: "w_fs (ex_meta_world doc_gap) (meta_file ex_meta) = Some ?f"
    by (simp add: ex_meta_world_def ex_meta_paths)
  have tf: "temp_path ex_env (meta_file ex_meta) \<noteq> meta_file ex_meta"
    by (simp add: ex_meta_paths)
  have p: "j_loads ex_lib (f_content ?f) = Some doc_gap"
    by (simp add: ex_loads)
  have m: "of_json doc_gap = PDict ?meta" by (rule ex_of_json)
  have sb: "dict_get (KStr ''submissions'') ?meta = Some (PDict ?subs)"
    by (simp add: dict_get_def)
  have tj: "to_json (PDict ?meta') = doc_gap'"
    by (simp add: dict_set_def doc_gap'_def py_str_def digits.simps)
  have md: "e_medium ex_env (j_dumps ex_lib (to_json (PDict ?meta'))) = j_dumps ex_lib (to_json (PDict ?meta'))"
    by (simp add: ex_env_def)
  from new_submission_id_eval[OF l f tf p m sb refl md, of 0]
  obtain w' where n: "new_submission_id 0 ex_env ex_lib ex_meta (ex_meta_world doc_gap)
        = Some (Returned 1, ex_meta\<lparr>m_attrs := (m_attrs ex_meta)(''submissions'' \<mapsto> PDict ?meta')\<rparr>, w')"
    and c: "map_option f_content (w_fs w' ''/d/study.meta.json'') = Some (render doc_gap')"
    unfolding tj by (auto simp: ex_meta_paths ex_lib_def)
  have b: "\<exists>d. j_loads ex_lib d = Some doc_gap
             \<and> map_option f_content (w_fs (ex_meta_world doc_gap) ''/d/study.meta.json'') = Some d"
    using p f by (auto simp: ex_meta_paths)
  from n c b ex_loads(3) ex_of_json(2,3) show ?thesis by blast
qed

end
